theory Spec2Isabelle
  imports Main
begin

text \<open>
  A voice and text command console: the policy engine that judges a shell command
  (\<open>isCommandSafe\<close>) and a path (\<open>isPathSafe\<close>), the parser that classifies an input
  (\<open>parseCommand\<close>), the file operation \<open>moveFile\<close>, the shell runner
  (\<open>executeShellCommand\<close>) and the executor (\<open>executeCommand\<close>), each translated from its
  JavaScript source, followed by what can be proved of them.
\<close>

section \<open>JavaScript values and strings\<close>

text \<open>
  A JavaScript string is modelled as a \<^typ>\<open>string\<close>: a list of 8-bit characters, read as
  the code units U+0000 to U+00FF. On that range the functions below are the ones of
  ECMAScript: the white space of \<open>trim\<close> and of the regular expression class \<open>\s\<close> is
  TAB, LF, VT, FF, CR, SPACE and NBSP, and \<open>toLowerCase\<close> moves A-Z and the accented
  capitals U+00C0 to U+00DE (without the multiplication sign U+00D7) up by 32.
  The pictographs of the source's message texts lie outside that range and are written as
  their UTF-8 bytes.
\<close>

text \<open>
  An object is kept as what converting it to a string does: \<open>None\<close> when the conversion
  gives a string, the message of the error when it throws (as for \<open>{toString: 1}\<close>, whose
  \<open>toString\<close> is no function and whose \<open>valueOf\<close> gives no primitive).
\<close>

datatype js_value =
    JsUndefined
  | JsNull
  | JsBoolean bool
  | JsNumber int
  | JsString string
  | JsObject "string option"

definition isWhiteSpace :: "char \<Rightarrow> bool" where
  "isWhiteSpace c =
     (c = CHR 0x09 \<or> c = CHR 0x0A \<or> c = CHR 0x0B \<or> c = CHR 0x0C \<or> c = CHR 0x0D \<or>
      c = CHR 0x20 \<or> c = CHR 0xA0)"

definition isLineTerminator :: "char \<Rightarrow> bool" where
  "isLineTerminator c = (c = CHR 0x0A \<or> c = CHR 0x0D)"

definition toLowerChar :: "char \<Rightarrow> char" where
  "toLowerChar c =
     (let n = (of_char c :: nat) in
      if (65 \<le> n \<and> n \<le> 90) \<or> (192 \<le> n \<and> n \<le> 222 \<and> n \<noteq> 215)
      then char_of (n + 32) else c)"

definition toLowerCase :: "string \<Rightarrow> string" where
  "toLowerCase s = map toLowerChar s"

definition trim :: "string \<Rightarrow> string" where
  "trim s = rev (dropWhile isWhiteSpace (rev (dropWhile isWhiteSpace s)))"

fun startsWith :: "string \<Rightarrow> string \<Rightarrow> bool" where
  "startsWith s [] = True"
| "startsWith [] (p # ps) = False"
| "startsWith (c # cs) (p # ps) = (c = p \<and> startsWith cs ps)"

fun str_includes :: "string \<Rightarrow> string \<Rightarrow> bool" where
  "str_includes [] sub = startsWith [] sub"
| "str_includes (c # cs) sub = (startsWith (c # cs) sub \<or> str_includes cs sub)"

text \<open>\<open>s.split(d)\<close> for a one-character separator: the pieces between the separators,
  never an empty array.\<close>

fun split :: "char \<Rightarrow> string \<Rightarrow> string list" where
  "split d [] = [[]]"
| "split d (c # cs) =
     (if c = d then [] # split d cs
      else (case split d cs of [] \<Rightarrow> [[c]] | w # ws \<Rightarrow> (c # w) # ws))"

text \<open>\<open>xs.join(sep)\<close>.\<close>

fun join :: "string \<Rightarrow> string list \<Rightarrow> string" where
  "join sep [] = []"
| "join sep [x] = x"
| "join sep (x # y # ys) = x @ sep @ join sep (y # ys)"

text \<open>\<open>a || b\<close> on strings: the empty string is falsy.\<close>

definition orElse :: "string \<Rightarrow> string \<Rightarrow> string" where
  "orElse a b = (if a = [] then b else a)"

section \<open>Regular expressions\<close>

text \<open>
  The regular expressions of the source are sequences of atoms: a character class under a
  quantifier (possibly inside a capture group) or an alternation of literal words. The
  matcher backtracks as ECMAScript does: a greedy quantifier tries the longest run first,
  a lazy one the shortest, an alternation its words from left to right, and a search
  tries the start positions from left to right. The result is the list of the captures of
  the first match found.
\<close>

datatype quant = One | Opt | Star | Plus | PlusLazy

datatype atom =
    Rep quant "char \<Rightarrow> bool" bool
  | Alts "string list"

type_synonym regex = "atom list"

fun downFrom :: "nat \<Rightarrow> nat \<Rightarrow> nat list" where
  "downFrom lo 0 = (if lo = 0 then [0] else [])"
| "downFrom lo (Suc n) = (if lo \<le> Suc n then Suc n # downFrom lo n else [])"

fun candidates :: "atom \<Rightarrow> string \<Rightarrow> nat list" where
  "candidates (Rep q P cap) s =
     (let n = length (takeWhile P s) in
      case q of
        One \<Rightarrow> (if 1 \<le> n then [1] else [])
      | Opt \<Rightarrow> (if 1 \<le> n then [1, 0] else [0])
      | Star \<Rightarrow> downFrom 0 n
      | Plus \<Rightarrow> downFrom 1 n
      | PlusLazy \<Rightarrow> rev (downFrom 1 n))"
| "candidates (Alts ws) s = map length (filter (startsWith s) ws)"

fun captured :: "atom \<Rightarrow> bool" where
  "captured (Rep q P cap) = cap"
| "captured (Alts ws) = True"

text \<open>Matching at the start of the string: the lengths the first atom may take are tried
  in order, each followed by the rest of the expression on the rest of the string.\<close>

function matchHere :: "regex \<Rightarrow> string \<Rightarrow> string list option"
  and tryLengths :: "atom \<Rightarrow> regex \<Rightarrow> string \<Rightarrow> nat list \<Rightarrow> string list option" where
  "matchHere [] s = Some []"
| "matchHere (a # as) s = tryLengths a as s (candidates a s)"
| "tryLengths a as s [] = None"
| "tryLengths a as s (k # ks) =
     (case matchHere as (drop k s) of
        Some caps \<Rightarrow> Some (if captured a then take k s # caps else caps)
      | None \<Rightarrow> tryLengths a as s ks)"
  by pat_completeness auto
termination
  by (relation "measures
        [\<lambda>x. case x of Inl (r, s) \<Rightarrow> 2 * length r | Inr (a, r, s, ks) \<Rightarrow> 2 * length r + 1,
         \<lambda>x. case x of Inl (r, s) \<Rightarrow> 0 | Inr (a, r, s, ks) \<Rightarrow> length ks]") auto

fun search :: "regex \<Rightarrow> string \<Rightarrow> string list option" where
  "search r [] = matchHere r []"
| "search r (c # cs) =
     (case matchHere r (c # cs) of Some caps \<Rightarrow> Some caps | None \<Rightarrow> search r cs)"

definition test :: "regex \<Rightarrow> string \<Rightarrow> bool" where
  "test r s = (search r s \<noteq> None)"

text \<open>Atoms: a literal character, with and without the flag \<open>i\<close>; the classes \<open>\s\<close>,
  \<open>\S\<close>, \<open>.\<close> and \<open>[0-9]\<close>.\<close>

definition lit :: "string \<Rightarrow> regex" where
  "lit w = map (\<lambda>c. Rep One (\<lambda>x. x = c) False) w"

definition liti :: "string \<Rightarrow> regex" where
  "liti w = map (\<lambda>c. Rep One (\<lambda>x. toLowerChar x = toLowerChar c) False) w"

definition dot :: "char \<Rightarrow> bool" where
  "dot c = (\<not> isLineTerminator c)"

definition nonSpace :: "char \<Rightarrow> bool" where
  "nonSpace c = (\<not> isWhiteSpace c)"

definition digit :: "char \<Rightarrow> bool" where
  "digit c = (let n = (of_char c :: nat) in 48 \<le> n \<and> n \<le> 57)"

definition spaces :: regex where
  "spaces = [Rep Plus isWhiteSpace False]"


text \<open>Characters that cannot stand inside a string literal here.\<close>

definition bs :: string where
  "bs = [CHR 0x5C]"

definition dq :: string where
  "dq = [CHR 0x22]"

definition sq :: string where
  "sq = [CHR 0x27]"

section \<open>Policy engine (security.js)\<close>

definition allowedCommands :: "string list" where
  "allowedCommands =
    [''mkdir'', ''touch'', ''ls'', ''cp'', ''mv'', ''cat'', ''head'', ''tail'', ''grep'', ''find'',
     ''chmod'', ''chown'', ''tar'', ''zip'', ''unzip'', ''gzip'', ''gunzip'',
     ''nano'', ''vim'', ''vi'', ''emacs'',
     ''pwd'', ''whoami'', ''uname'', ''df'', ''du'', ''free'', ''uptime'', ''ps'', ''top'', ''htop'',
     ''ping'', ''curl'', ''wget'', ''ssh'', ''scp'',
     ''git'', ''npm'', ''node'', ''python'', ''python3'', ''gcc'', ''g++'', ''make'',
     ''echo'', ''date'', ''cal'', ''which'', ''whereis'', ''man'', ''info'', ''help'']"

definition blockedCommands :: "string list" where
  "blockedCommands =
    [''rm -rf'', ''rm -r'', ''rm -f'', ''shutdown'', ''reboot'', ''halt'', ''poweroff'',
     ''init 0'', ''init 6'', ''systemctl poweroff'', ''systemctl reboot'',
     ''chmod 777 /'', ''chmod 777 /etc'', ''chmod 777 /root'', ''chmod 777 /home'',
     ''chown root:'', ''chown root /'', ''chown root /etc'',
     ''kill -9 1'', ''killall'', ''pkill -f systemd'', ''killall systemd'',
     ''nmap'', ''nmap -sS'', ''nmap -O'', ''netcat'', ''nc -l'', ''nc -e'',
     ''dd if=/dev/zero'', ''dd of=/dev/sda'', ''mkfs'', ''fdisk'', ''parted'',
     ''format'', ''wipefs'', ''badblocks'',
     ''sudo su'', ''sudo -i'', ''su -'', ''su root'', ''passwd root'',
     ''> /dev/sda'', ''> /etc/passwd'', ''> /etc/shadow'', ''>> /etc/passwd'',
     ''bash -c'', ''sh -c'', ''eval'', ''exec'', ''source /dev/stdin'']"

text \<open>Each blocked pattern with its source text, which \<open>pattern.toString()\<close> prints
  between slashes.\<close>

definition blockedPatterns :: "(string \<times> regex) list" where
  "blockedPatterns =
    [(''rm'' @ bs @ ''s+-rf?'' @ bs @ ''s+'' @ bs @ ''/'',
        lit ''rm'' @ spaces @ lit ''-r'' @ [Rep Opt (\<lambda>x. x = CHR ''f'') False] @ spaces @ lit ''/''),
     (''chmod'' @ bs @ ''s+777'' @ bs @ ''s+'' @ bs @ ''/'',
        lit ''chmod'' @ spaces @ lit ''777'' @ spaces @ lit ''/''),
     (''chown'' @ bs @ ''s+root'' @ bs @ ''s+'' @ bs @ ''/'',
        lit ''chown'' @ spaces @ lit ''root'' @ spaces @ lit ''/''),
     (''dd'' @ bs @ ''s+if=.*of='' @ bs @ ''/dev'',
        lit ''dd'' @ spaces @ lit ''if='' @ [Rep Star dot False] @ lit ''of=/dev''),
     (''sudo'' @ bs @ ''s+(su|passwd|visudo)'',
        lit ''sudo'' @ spaces @ [Alts [''su'', ''passwd'', ''visudo'']]),
     (''kill'' @ bs @ ''s+-9'' @ bs @ ''s+[0-9]+'',
        lit ''kill'' @ spaces @ lit ''-9'' @ spaces @ [Rep Plus digit False]),
     (''>.*'' @ bs @ ''/etc'' @ bs @ ''/(passwd|shadow|hosts)'',
        lit ''>'' @ [Rep Star dot False] @ lit ''/etc/'' @ [Alts [''passwd'', ''shadow'', ''hosts'']]),
     (''bash'' @ bs @ ''s+-c'' @ bs @ ''s+['' @ sq @ dq @ '']'',
        lit ''bash'' @ spaces @ lit ''-c'' @ spaces @
        [Rep One (\<lambda>x. x = CHR 0x27 \<or> x = CHR 0x22) False]),
     (''eval'' @ bs @ ''s+'', lit ''eval'' @ spaces),
     (''exec'' @ bs @ ''s+'', lit ''exec'' @ spaces),
     (''source'' @ bs @ ''s+'' @ bs @ ''/dev'' @ bs @ ''/stdin'',
        lit ''source'' @ spaces @ lit ''/dev/stdin'')]"

definition patternToString :: "string \<times> regex \<Rightarrow> string" where
  "patternToString p = ''/'' @ fst p @ ''/''"

text \<open>The objects \<open>isCommandSafe\<close> and \<open>isPathSafe\<close> return; a field the object does not
  have is \<open>None\<close>.\<close>

record verdict =
  safe :: bool
  reason :: string
  blocked :: bool
  pattern :: "string option"
  suggestion :: "string option"
  resolvedPath :: "string option"
  projectRoot :: "string option"

definition mkVerdict :: "bool \<Rightarrow> string \<Rightarrow> bool \<Rightarrow> verdict" where
  "mkVerdict s r b =
     \<lparr>safe = s, reason = r, blocked = b, pattern = None, suggestion = None,
      resolvedPath = None, projectRoot = None\<rparr>"

text \<open>The two \<open>for\<close> loops of \<open>isCommandSafe\<close>: the first entry that hits, if any.\<close>

definition firstBlockedCommand :: "string \<Rightarrow> string option" where
  "firstBlockedCommand trimmedCommand =
     List.find (\<lambda>b. str_includes trimmedCommand (toLowerCase b)) blockedCommands"

definition firstBlockedPattern :: "string \<Rightarrow> (string \<times> regex) option" where
  "firstBlockedPattern command = List.find (\<lambda>p. test (snd p) command) blockedPatterns"

text \<open>\<open>trimmedCommand.split(' ')[0]\<close>.\<close>

definition baseCommandOf :: "string \<Rightarrow> string" where
  "baseCommandOf trimmedCommand =
     (case split CHR '' '' trimmedCommand of [] \<Rightarrow> [] | w # ws \<Rightarrow> w)"

definition isCommandSafeString :: "string \<Rightarrow> verdict" where
  "isCommandSafeString command =
     (let trimmedCommand = toLowerCase (trim command) in
      case firstBlockedCommand trimmedCommand of
        Some b \<Rightarrow>
          (mkVerdict False (''Command contains blocked pattern: '' @ dq @ b @ dq) True)
            \<lparr>pattern := Some b\<rparr>
      | None \<Rightarrow>
     (case firstBlockedPattern command of
        Some p \<Rightarrow>
          (mkVerdict False (''Command matches blocked pattern: '' @ patternToString p) True)
            \<lparr>pattern := Some (patternToString p)\<rparr>
      | None \<Rightarrow>
     (let baseCommand = baseCommandOf trimmedCommand in
      if baseCommand \<notin> set allowedCommands then
        (mkVerdict False (''Command '' @ dq @ baseCommand @ dq @ '' not in allowlist'') True)
          \<lparr>suggestion :=
             Some (''Try one of these: '' @ join '', '' (take 5 allowedCommands) @ ''...'')\<rparr>
      else if str_includes trimmedCommand ''&&'' \<or> str_includes trimmedCommand ''||'' \<or>
              str_includes trimmedCommand '';'' then
        mkVerdict False ''Command chaining not allowed for security'' True
      else if str_includes trimmedCommand ''$('' \<or> str_includes trimmedCommand ''`'' then
        mkVerdict False ''Command substitution not allowed for security'' True
      else mkVerdict True ''Command is safe'' False)))"

text \<open>The guard \<open>!command || typeof command !== 'string'\<close> lets through the non-empty
  strings only.\<close>

definition isCommandSafe :: "js_value \<Rightarrow> verdict" where
  "isCommandSafe command =
     (case command of
        JsString s \<Rightarrow>
          (if s = [] then mkVerdict False ''Invalid command format'' True
           else isCommandSafeString s)
      | _ \<Rightarrow> mkVerdict False ''Invalid command format'' True)"

section \<open>Paths (Node's \<open>path\<close> module, POSIX flavour)\<close>

text \<open>\<open>normalizeString\<close>: the segments between slashes, with empty and \<open>.\<close> segments
  dropped and each \<open>..\<close> removing the segment before it; above the start a \<open>..\<close> is
  kept only when \<open>allowAboveRoot\<close> holds.\<close>

definition normalizeStep :: "bool \<Rightarrow> string list \<Rightarrow> string \<Rightarrow> string list" where
  "normalizeStep allowAboveRoot res seg =
     (if seg = [] \<or> seg = ''.'' then res
      else if seg = ''..'' then
        (if res \<noteq> [] \<and> last res \<noteq> ''..'' then butlast res
         else if allowAboveRoot then res @ [''..''] else res)
      else res @ [seg])"

definition normalizeString :: "string \<Rightarrow> bool \<Rightarrow> string" where
  "normalizeString path allowAboveRoot =
     join ''/'' (foldl (normalizeStep allowAboveRoot) [] (split CHR ''/'' path))"

definition path_normalize :: "string \<Rightarrow> string" where
  "path_normalize path =
     (if path = [] then ''.''
      else
        let isAbsolute = startsWith path ''/'';
            trailingSeparator = (last path = CHR ''/'');
            p = normalizeString path (\<not> isAbsolute)
        in if p = [] then (if isAbsolute then ''/'' else if trailingSeparator then ''./'' else ''.'')
           else (if isAbsolute then ''/'' else []) @ p @ (if trailingSeparator then ''/'' else []))"

definition path_join :: "string list \<Rightarrow> string" where
  "path_join args =
     (let joined = join ''/'' (filter (\<lambda>a. a \<noteq> []) args)
      in if joined = [] then ''.'' else path_normalize joined)"

text \<open>\<open>path.resolve\<close> reads its arguments from the right until the path built so far is
  absolute, and falls back on the current directory \<open>cwd\<close> of the process.\<close>

fun resolveLoop :: "string \<Rightarrow> string list \<Rightarrow> string \<Rightarrow> string \<times> bool" where
  "resolveLoop cwd [] rpath =
     (if cwd = [] then (rpath, False)
      else (cwd @ ''/'' @ rpath, startsWith cwd ''/''))"
| "resolveLoop cwd (p # ps) rpath =
     (if p = [] then resolveLoop cwd ps rpath
      else if startsWith p ''/'' then (p @ ''/'' @ rpath, True)
      else resolveLoop cwd ps (p @ ''/'' @ rpath))"

definition path_resolve :: "string \<Rightarrow> string list \<Rightarrow> string" where
  "path_resolve cwd args =
     (case resolveLoop cwd (rev args) [] of
        (rpath, rabs) \<Rightarrow>
          let p = normalizeString rpath (\<not> rabs)
          in if rabs then ''/'' @ p
             else if p \<noteq> [] then p else ''.'')"



text \<open>\<open>PROJECT_ROOT\<close> and \<open>WORKING_DIR\<close>, from the home directory \<open>os.homedir()\<close>.\<close>

definition PROJECT_ROOT :: "string \<Rightarrow> string" where
  "PROJECT_ROOT home = path_join [home, ''Desktop'', ''VOICE-CMD'']"

definition isPathSafeString :: "string \<Rightarrow> string \<Rightarrow> string \<Rightarrow> verdict" where
  "isPathSafeString home cwd userPath =
     (let resolved = path_resolve cwd [PROJECT_ROOT home, userPath];
          isWithinProject = startsWith resolved (PROJECT_ROOT home)
      in if \<not> isWithinProject then
           (mkVerdict False
              (''Path '' @ dq @ userPath @ dq @ '' is outside project directory'') True)
             \<lparr>resolvedPath := Some resolved, projectRoot := Some (PROJECT_ROOT home)\<rparr>
         else
           (mkVerdict True ''Path is within project boundaries'' False)
             \<lparr>resolvedPath := Some resolved\<rparr>)"

definition isPathSafe :: "string \<Rightarrow> string \<Rightarrow> js_value \<Rightarrow> verdict" where
  "isPathSafe home cwd userPath =
     (case userPath of
        JsString s \<Rightarrow>
          (if s = [] then mkVerdict False ''Invalid path format'' True
           else isPathSafeString home cwd s)
      | _ \<Rightarrow> mkVerdict False ''Invalid path format'' True)"

text \<open>A directory holds a path when the path's segments start with the directory's
  segments: what lying inside the sandbox root means for a resolved path.\<close>

definition segments :: "string \<Rightarrow> string list" where
  "segments p = filter (\<lambda>s. s \<noteq> []) (split CHR ''/'' p)"

definition insideDirectory :: "string \<Rightarrow> string \<Rightarrow> bool" where
  "insideDirectory dir p =
     (take (length (segments dir)) (segments p) = segments dir)"

section \<open>File operations (fileOps.js)\<close>

text \<open>
  The file system is the list of the absolute paths that exist, each with what lies there,
  in the order a directory listing yields them; the root directory always exists.
  \<open>fs.access\<close> succeeds on the paths that exist and \<open>fs.stat\<close> tells a directory from a
  file. A failing call raises an error whose message names the code, the system call and
  the paths, as Node's messages do. Times and permissions are not kept.
\<close>

datatype node = File string | Directory

type_synonym filesystem = "(string \<times> node) list"

definition lookup :: "filesystem \<Rightarrow> string \<Rightarrow> node option" where
  "lookup fs p = (if p = ''/'' then Some Directory else map_of fs p)"

definition pathExists :: "filesystem \<Rightarrow> string \<Rightarrow> bool" where
  "pathExists fs p = (lookup fs p \<noteq> None)"

definition isDirectory :: "filesystem \<Rightarrow> string \<Rightarrow> bool" where
  "isDirectory fs p = (lookup fs p = Some Directory)"
























text \<open>The object a file operation returns: the three fields every caller reads, and the
  further fields (names and paths echoed back, the error message, the counts) as a list.
  The field \<open>files\<close> of a listing, which repeats the entries with their sizes and
  modification dates, is left out.\<close>

record op_result =
  action :: string
  result :: string
  success :: bool
  details :: "(string \<times> string) list"














section \<open>Intent parser (commandParser.js)\<close>

text \<open>The object \<open>parseCommand\<close> returns, by its \<open>type\<close> tag: \<open>"error"\<close> with the
  message, \<open>"memoryOp"\<close> and \<open>"fileOp"\<close> with \<open>fn\<close>, \<open>args\<close> and \<open>originalInput\<close>,
  \<open>"shell"\<close> with \<open>command\<close> and \<open>originalInput\<close>.\<close>

datatype parse_result =
    ParseError string
  | MemoryOp string "string list" string
  | FileOp string "string list" string
  | Shell string string

text \<open>A row of a pattern table: the regular expression, \<open>fn\<close>, and \<open>args\<close> as a function
  of the captures \<open>match[1]\<close>, \<open>match[2]\<close>.\<close>

type_synonym pattern_row = "regex \<times> string \<times> (string list \<Rightarrow> string list)"

definition group :: "string list \<Rightarrow> nat \<Rightarrow> string" where
  "group caps i = (if 1 \<le> i \<and> i \<le> length caps then caps ! (i - 1) else [])"

definition memoryOpPatterns :: "pattern_row list" where
  "memoryOpPatterns =
    [(liti ''remember'' @ spaces @ [Rep PlusLazy dot True] @ spaces @ liti ''is'' @ spaces @
        [Rep Plus dot True],
      ''saveMemory'', \<lambda>m. [trim (group m 1), trim (group m 2)]),
     (liti ''remember'' @ spaces @ [Rep Plus dot True],
      ''saveMemory'', \<lambda>m. [trim (group m 1), ''true'']),
     (liti ''recall'' @ spaces @ [Rep Plus dot True],
      ''getMemory'', \<lambda>m. [trim (group m 1)]),
     (liti ''show'' @ spaces @ liti ''memory'', ''getAllMemory'', \<lambda>m. []),
     (liti ''clear'' @ spaces @ liti ''memory'', ''clearMemory'', \<lambda>m. []),
     (liti ''search'' @ spaces @ liti ''memory'' @ spaces @ [Rep Plus dot True],
      ''searchMemory'', \<lambda>m. [trim (group m 1)]),
     (liti ''memory'' @ spaces @ liti ''stats'', ''getMemoryStats'', \<lambda>m. []),
     (liti ''command'' @ spaces @ liti ''history'', ''getCommandHistory'', \<lambda>m. [])]"

definition fileOpPatterns :: "pattern_row list" where
  "fileOpPatterns =
    [(liti ''create'' @ spaces @ liti ''file'' @ spaces @ [Rep Plus nonSpace True],
      ''createFile'', \<lambda>m. [group m 1]),
     (liti ''create'' @ spaces @ liti ''a'' @ spaces @ liti ''file'' @ spaces @
        [Rep Plus nonSpace True],
      ''createFile'', \<lambda>m. [group m 1]),
     (liti ''create'' @ spaces @ liti ''directory'' @ spaces @ [Rep Plus nonSpace True],
      ''createDirectory'', \<lambda>m. [group m 1]),
     (liti ''create'' @ spaces @ liti ''a'' @ spaces @ liti ''directory'' @ spaces @
        [Rep Plus nonSpace True],
      ''createDirectory'', \<lambda>m. [group m 1]),
     (liti ''make'' @ spaces @ liti ''directory'' @ spaces @ [Rep Plus nonSpace True],
      ''createDirectory'', \<lambda>m. [group m 1]),
     (liti ''mkdir'' @ spaces @ [Rep Plus nonSpace True],
      ''createDirectory'', \<lambda>m. [group m 1]),
     (liti ''delete'' @ spaces @ liti ''file'' @ spaces @ [Rep Plus nonSpace True],
      ''deleteFile'', \<lambda>m. [group m 1]),
     (liti ''copy'' @ spaces @ liti ''file'' @ spaces @ [Rep Plus nonSpace True] @ spaces @
        liti ''to'' @ spaces @ [Rep Plus nonSpace True],
      ''copyFile'', \<lambda>m. [group m 1, group m 2]),
     (liti ''move'' @ spaces @ liti ''file'' @ spaces @ [Rep Plus nonSpace True] @ spaces @
        liti ''to'' @ spaces @ [Rep Plus nonSpace True],
      ''moveFile'', \<lambda>m. [group m 1, group m 2]),
     (liti ''list'' @ spaces @ liti ''files'', ''listFiles'', \<lambda>m. [])]"

definition shellCommands :: "string list" where
  "shellCommands =
    [''ls'', ''pwd'', ''cd'', ''mkdir'', ''touch'', ''rm'', ''cp'', ''mv'', ''ps'', ''kill'',
     ''nano'', ''cat'', ''grep'', ''find'', ''which'', ''whoami'', ''uname'', ''df'',
     ''free'', ''uptime'', ''ping'', ''curl'', ''wget'']"

text \<open>The \<open>for\<close> loop over a pattern table: the first row whose expression matches.\<close>

fun firstMatch :: "pattern_row list \<Rightarrow> string \<Rightarrow> (string \<times> string list) option" where
  "firstMatch [] inp = None"
| "firstMatch ((r, fn, args) # rows) inp =
     (case search r inp of
        Some m \<Rightarrow> Some (fn, args m)
      | None \<Rightarrow> firstMatch rows inp)"

definition parseCommandString :: "string \<Rightarrow> parse_result" where
  "parseCommandString inp =
     (let trimmedInput = toLowerCase (trim inp) in
      case firstMatch memoryOpPatterns inp of
        Some (fn, args) \<Rightarrow> MemoryOp fn args inp
      | None \<Rightarrow>
     (case firstMatch fileOpPatterns inp of
        Some (fn, args) \<Rightarrow> FileOp fn args inp
      | None \<Rightarrow>
     (let firstWord = baseCommandOf trimmedInput in
      if firstWord \<in> set shellCommands then Shell inp inp
      else Shell inp inp)))"

text \<open>The guard \<open>!input || typeof input !== 'string'\<close> lets through the non-empty strings
  only.\<close>

definition parseCommand :: "js_value \<Rightarrow> parse_result" where
  "parseCommand inp =
     (case inp of
        JsString s \<Rightarrow>
          (if s = [] then ParseError ''Invalid input: command must be a non-empty string''
           else parseCommandString s)
      | _ \<Rightarrow> ParseError ''Invalid input: command must be a non-empty string'')"

section \<open>Shell runner and command executor (commandUtils.js)\<close>

text \<open>What the callback of \<open>child_process.exec\<close> receives: \<open>error\<close> (absent on exit
  status 0), \<open>stdout\<close> and \<open>stderr\<close>. The error's \<open>code\<close> is the exit status, the name of
  a system error, or absent; \<open>signal\<close> names the signal that ended the process.\<close>

datatype error_code = NoCode | ExitStatus nat | SystemError string

record child_error =
  errCode :: error_code
  errSignal :: "string option"
  errMessage :: string

record exec_outcome =
  execError :: "child_error option"
  stdout :: string
  stderr :: string

text \<open>What the runner does besides returning: the records it hands to the logger and
  the subprocesses it spawns, in order.\<close>

datatype event =
    LogSecurity string string string
  | LogCommand string string string
  | Spawn string

record shell_result =
  success :: bool
  output_text :: string
  blocked :: bool
  code :: "string option"

definition noEntrySign :: string where
  "noEntrySign = [CHR 0xF0, CHR 0x9F, CHR 0x9A, CHR 0xAB]"

definition newline :: string where
  "newline = [CHR 0x0A]"

definition classifyError :: "string \<Rightarrow> child_error \<Rightarrow> string \<Rightarrow> string \<times> string" where
  "classifyError command e err =
     (if errCode e = SystemError ''ENOENT'' then
        (''E_COMMAND_NOT_FOUND'', ''Command not found: '' @ baseCommandOf command)
      else if errCode e = SystemError ''EACCES'' then
        (''E_PERMISSION_DENIED'', ''Permission denied: '' @ errMessage e)
      else if errSignal e = Some ''SIGTERM'' then
        (''E_COMMAND_TIMEOUT'', ''Command timed out after 10 seconds'')
      else if errCode e = SystemError ''ENOTDIR'' then
        (''E_INVALID_DIRECTORY'', ''Invalid directory: '' @ errMessage e)
      else (''E_COMMAND_FAILED'', orElse err (errMessage e)))"

definition executeShellCommand ::
  "(string \<Rightarrow> exec_outcome) \<Rightarrow> string \<Rightarrow> shell_result \<times> event list" where
  "executeShellCommand exec command =
     (let securityCheck = isCommandSafe (JsString command) in
      if \<not> safe securityCheck then
        (\<lparr>success = False,
          output_text = noEntrySign @ '' Command blocked for security: '' @ command @ newline @
                   ''Reason: '' @ reason securityCheck @
                   (case suggestion securityCheck of
                      None \<Rightarrow> []
                    | Some sg \<Rightarrow> if sg = [] then [] else newline @ ''Suggestion: '' @ sg),
          blocked = True,
          code = None\<rparr>,
         [LogSecurity command ''BLOCKED'' (reason securityCheck)])
      else
        let out = exec command in
        case execError out of
          Some e \<Rightarrow>
            (case classifyError command e (stderr out) of
               (errorCode, errorText) \<Rightarrow>
                 (\<lparr>success = False, output_text = errorText, blocked = False,
                   code = Some errorCode\<rparr>,
                  [LogCommand command ''SUCCESS'' ''Command passed security checks'',
                   Spawn command,
                   LogCommand command ''ERROR'' (errMessage e)]))
        | None \<Rightarrow>
            (\<lparr>success = True,
              output_text = orElse (stdout out) ''Command executed successfully'',
              blocked = False,
              code = Some ''SUCCESS''\<rparr>,
             [LogCommand command ''SUCCESS'' ''Command passed security checks'',
              Spawn command,
              LogCommand command ''SUCCESS'' ''Command executed successfully'']))"


text \<open>The earlier copy of the runner in the same source file: it logs through the
  security module and returns no \<open>code\<close>.\<close>

definition executeShellCommandV1 ::
  "(string \<Rightarrow> exec_outcome) \<Rightarrow> string \<Rightarrow> shell_result \<times> event list" where
  "executeShellCommandV1 exec command =
     (let securityCheck = isCommandSafe (JsString command) in
      if \<not> safe securityCheck then
        (\<lparr>success = False,
          output_text = noEntrySign @ '' Command blocked for security: '' @ command @ newline @
                   ''Reason: '' @ reason securityCheck @
                   (case suggestion securityCheck of
                      None \<Rightarrow> []
                    | Some sg \<Rightarrow> if sg = [] then [] else newline @ ''Suggestion: '' @ sg),
          blocked = True,
          code = None\<rparr>,
         [LogCommand command ''BLOCKED'' (reason securityCheck)])
      else
        let out = exec command in
        case execError out of
          Some e \<Rightarrow>
            (\<lparr>success = False, output_text = orElse (stderr out) (errMessage e),
              blocked = False, code = None\<rparr>,
             [LogCommand command ''ALLOWED'' ''Command passed security checks'',
              Spawn command,
              LogCommand command ''ERROR'' (errMessage e)])
        | None \<Rightarrow>
            (\<lparr>success = True,
              output_text = orElse (stdout out) ''Command executed successfully'',
              blocked = False,
              code = None\<rparr>,
             [LogCommand command ''ALLOWED'' ''Command passed security checks'',
              Spawn command,
              LogCommand command ''SUCCESS'' ''Command executed successfully'']))"

text \<open>
  An exception is the \<open>Error\<close> thrown, kept as its message: a computation that may throw
  returns \<open>Inl message\<close> or \<open>Inr value\<close>. The executor is written over its collaborators,
  each of which may throw: the parser, \<open>executeMemoryOperation\<close>, the method of
  \<open>FileOperations\<close> named by \<open>fn\<close>, \<open>executeShellCommand\<close> and
  \<open>memory.addCommandToHistory\<close>.
\<close>

type_synonym 'a throwing = "string + 'a"

definition andThen :: "'a throwing \<Rightarrow> ('a \<Rightarrow> 'b throwing) \<Rightarrow> 'b throwing" where
  "andThen m f = (case m of Inl err \<Rightarrow> Inl err | Inr v \<Rightarrow> f v)"

definition tryCatch :: "'a throwing \<Rightarrow> (string \<Rightarrow> 'a throwing) \<Rightarrow> 'a throwing" where
  "tryCatch body handler = (case body of Inl err \<Rightarrow> handler err | Inr v \<Rightarrow> Inr v)"

text \<open>The first statement of the executor, \<open>console.log\<close> of a template literal that
  holds \<open>commandText\<close>: building the text converts the argument to a string, which throws
  for an object that has no such conversion. The line printed is not kept.\<close>

definition logExecuting :: "js_value \<Rightarrow> unit throwing" where
  "logExecuting commandText =
     (case commandText of
        JsObject (Some message) \<Rightarrow> Inl message
      | _ \<Rightarrow> Inr ())"

record components =
  parser :: "js_value \<Rightarrow> parse_result throwing"
  memoryOperation :: "string \<Rightarrow> string list \<Rightarrow> op_result throwing"
  fileOperation :: "string \<Rightarrow> string list \<Rightarrow> op_result throwing"
  shellCommand :: "string \<Rightarrow> shell_result throwing"
  addCommandToHistory :: "js_value \<Rightarrow> unit throwing"

record exec_result =
  input :: js_value
  action :: string
  result :: string
  success :: bool
  blocked :: "bool option"
  code :: "string option"

definition executeCommand :: "components \<Rightarrow> js_value \<Rightarrow> exec_result throwing" where
  "executeCommand cs commandText =
     tryCatch
       (andThen (logExecuting commandText) (\<lambda>logged.
        andThen (parser cs commandText) (\<lambda>parseResult.
          case parseResult of
            ParseError e \<Rightarrow>
              Inr \<lparr>input = commandText, action = ''Parse Error'', result = e,
                   success = False, blocked = None, code = Some ''E_PARSE_ERROR''\<rparr>
          | MemoryOp fn args orig \<Rightarrow>
              tryCatch
                (andThen (memoryOperation cs fn args) (\<lambda>r.
                 andThen (addCommandToHistory cs commandText) (\<lambda>u.
                   Inr \<lparr>input = commandText, action = op_result.action r,
                        result = op_result.result r, success = op_result.success r,
                        blocked = None, code = None\<rparr>)))
                (\<lambda>err.
                   Inr \<lparr>input = commandText, action = ''Memory Operation Error'',
                        result = ''Error executing memory operation: '' @ err,
                        success = False, blocked = None,
                        code = Some ''E_MEMORY_OPERATION_FAILED''\<rparr>)
          | FileOp fn args orig \<Rightarrow>
              tryCatch
                (andThen (fileOperation cs fn args) (\<lambda>r.
                 andThen (addCommandToHistory cs commandText) (\<lambda>u.
                   Inr \<lparr>input = commandText, action = op_result.action r,
                        result = op_result.result r, success = op_result.success r,
                        blocked = None, code = None\<rparr>)))
                (\<lambda>err.
                   Inr \<lparr>input = commandText, action = ''File Operation Error'',
                        result = ''Error executing file operation: '' @ err,
                        success = False, blocked = None,
                        code = Some ''E_FILE_OPERATION_FAILED''\<rparr>)
          | Shell command orig \<Rightarrow>
              tryCatch
                (andThen (shellCommand cs command) (\<lambda>r.
                 andThen (addCommandToHistory cs commandText) (\<lambda>u.
                   Inr \<lparr>input = commandText, action = ''Shell Command'',
                        result = output_text r, success = shell_result.success r,
                        blocked = Some (shell_result.blocked r), code = None\<rparr>)))
                (\<lambda>err.
                   Inr \<lparr>input = commandText, action = ''Shell Command Error'',
                        result = ''Error executing shell command: '' @ err,
                        success = False, blocked = None,
                        code = Some ''E_SHELL_COMMAND_FAILED''\<rparr>))))
       (\<lambda>err.
          Inr \<lparr>input = commandText, action = ''System Error'',
               result = ''An unexpected error occurred: '' @ err,
               success = False, blocked = None, code = Some ''E_SYSTEM_ERROR''\<rparr>)"

text \<open>The earlier copy of the executor in the same source file: no handler around the
  whole body, so that what the first statement or the parser throws leaves the function;
  no \<open>code\<close> and no \<open>blocked\<close> in what it returns.\<close>

definition executeCommandV1 :: "components \<Rightarrow> js_value \<Rightarrow> exec_result throwing" where
  "executeCommandV1 cs commandText =
     andThen (logExecuting commandText) (\<lambda>logged.
     andThen (parser cs commandText) (\<lambda>parseResult.
       case parseResult of
         ParseError e \<Rightarrow>
           Inr \<lparr>input = commandText, action = ''Parse Error'', result = e,
                success = False, blocked = None, code = None\<rparr>
       | MemoryOp fn args orig \<Rightarrow>
           tryCatch
             (andThen (memoryOperation cs fn args) (\<lambda>r.
              andThen (addCommandToHistory cs commandText) (\<lambda>u.
                Inr \<lparr>input = commandText, action = op_result.action r,
                     result = op_result.result r, success = op_result.success r,
                     blocked = None, code = None\<rparr>)))
             (\<lambda>err.
                Inr \<lparr>input = commandText, action = ''Memory Operation Error'',
                     result = ''Error executing memory operation: '' @ err,
                     success = False, blocked = None, code = None\<rparr>)
       | FileOp fn args orig \<Rightarrow>
           tryCatch
             (andThen (fileOperation cs fn args) (\<lambda>r.
              andThen (addCommandToHistory cs commandText) (\<lambda>u.
                Inr \<lparr>input = commandText, action = op_result.action r,
                     result = op_result.result r, success = op_result.success r,
                     blocked = None, code = None\<rparr>)))
             (\<lambda>err.
                Inr \<lparr>input = commandText, action = ''File Operation Error'',
                     result = ''Error executing file operation: '' @ err,
                     success = False, blocked = None, code = None\<rparr>)
       | Shell command orig \<Rightarrow>
           tryCatch
             (andThen (shellCommand cs command) (\<lambda>r.
              andThen (addCommandToHistory cs commandText) (\<lambda>u.
                Inr \<lparr>input = commandText, action = ''Shell Command'',
                     result = output_text r, success = shell_result.success r,
                     blocked = None, code = None\<rparr>)))
             (\<lambda>err.
                Inr \<lparr>input = commandText, action = ''Shell Command Error'',
                     result = ''Error executing shell command: '' @ err,
                     success = False, blocked = None, code = None\<rparr>)))"

text \<open>The collaborators as the module wires them: its own parser and runner, which do not
  throw, around a subprocess \<open>exec\<close>, the memory module and the file operations.\<close>

definition wired ::
  "(string \<Rightarrow> exec_outcome) \<Rightarrow> (string \<Rightarrow> string list \<Rightarrow> op_result throwing) \<Rightarrow>
   (string \<Rightarrow> string list \<Rightarrow> op_result throwing) \<Rightarrow> (js_value \<Rightarrow> unit throwing) \<Rightarrow> components" where
  "wired exec memOp fileOp history =
     \<lparr>parser = (\<lambda>x. Inr (parseCommand x)),
      memoryOperation = memOp,
      fileOperation = fileOp,
      shellCommand = (\<lambda>c. Inr (fst (executeShellCommand exec c))),
      addCommandToHistory = history\<rparr>"

section \<open>Facts about strings\<close>

lemma startsWith_iff: "startsWith s p \<longleftrightarrow> (\<exists>b. s = p @ b)"
  by (induction s p rule: startsWith.induct) auto

lemma str_includes_iff: "str_includes s sub \<longleftrightarrow> (\<exists>a b. s = a @ sub @ b)"
proof (induction s)
  case Nil
  show ?case by (cases sub) (auto simp: startsWith_iff)
next
  case (Cons c cs)
  show ?case
  proof
    assume "str_includes (c # cs) sub"
    then consider "startsWith (c # cs) sub" | "str_includes cs sub" by auto
    then show "\<exists>a b. c # cs = a @ sub @ b"
    proof cases
      case 1
      then obtain b where "c # cs = sub @ b" by (auto simp: startsWith_iff)
      then have "c # cs = [] @ sub @ b" by simp
      then show ?thesis by blast
    next
      case 2
      then obtain a b where "cs = a @ sub @ b" using Cons.IH by blast
      then have "c # cs = (c # a) @ sub @ b" by simp
      then show ?thesis by blast
    qed
  next
    assume "\<exists>a b. c # cs = a @ sub @ b"
    then obtain a b where ab: "c # cs = a @ sub @ b" by blast
    show "str_includes (c # cs) sub"
    proof (cases a)
      case Nil
      with ab have "startsWith (c # cs) sub" by (auto simp: startsWith_iff)
      then show ?thesis by simp
    next
      case (Cons x xs)
      with ab have "cs = xs @ sub @ b" by simp
      then have "str_includes cs sub" using Cons.IH by blast
      then show ?thesis by simp
    qed
  qed
qed

lemma str_includes_middle: "str_includes (a @ sub @ b) sub"
  by (auto simp: str_includes_iff)

section \<open>The verdict of the policy engine\<close>

text \<open>
  C10. Every object \<open>isCommandSafe\<close> returns has \<open>blocked\<close> equal to the negation of
  \<open>safe\<close>: for every argument, a string or not, whichever branch returns.
\<close>

theorem isCommandSafe_blocked_iff_unsafe:
  "verdict.blocked (isCommandSafe c) = (\<not> safe (isCommandSafe c))"
  by (simp add: isCommandSafe_def isCommandSafeString_def mkVerdict_def Let_def
      split: js_value.splits option.splits)

text \<open>One argument for each branch: not a string, a literal of the denylist, a pattern of
  the denylist, a first word outside the allowlist, chaining, substitution, and a safe
  command.\<close>

theorem isCommandSafe_blocked_iff_unsafe_witness:
  "reason (isCommandSafe JsNull) = ''Invalid command format'' \<and>
   verdict.blocked (isCommandSafe JsNull) = True \<and>
   pattern (isCommandSafe (JsString ''rm -rf /'')) = Some ''rm -rf'' \<and>
   verdict.blocked (isCommandSafe (JsString ''rm -rf /'')) = True \<and>
   pattern (isCommandSafe (JsString ''chmod  777  /'')) =
     Some (''/chmod'' @ bs @ ''s+777'' @ bs @ ''s+'' @ bs @ ''//'') \<and>
   verdict.blocked (isCommandSafe (JsString ''chmod  777  /'')) = True \<and>
   suggestion (isCommandSafe (JsString ''hack'')) =
     Some ''Try one of these: mkdir, touch, ls, cp, mv...'' \<and>
   verdict.blocked (isCommandSafe (JsString ''hack'')) = True \<and>
   reason (isCommandSafe (JsString ''ls || pwd'')) =
     ''Command chaining not allowed for security'' \<and>
   verdict.blocked (isCommandSafe (JsString ''ls || pwd'')) = True \<and>
   reason (isCommandSafe (JsString ''echo `pwd`'')) =
     ''Command substitution not allowed for security'' \<and>
   verdict.blocked (isCommandSafe (JsString ''echo `pwd`'')) = True \<and>
   reason (isCommandSafe (JsString ''ls -la'')) = ''Command is safe'' \<and>
   verdict.blocked (isCommandSafe (JsString ''ls -la'')) = False"
proof -
  have a: "isCommandSafe JsNull = mkVerdict False ''Invalid command format'' True"
    by (simp add: isCommandSafe_def)
  have b: "isCommandSafe (JsString ''rm -rf /'') =
      (mkVerdict False (''Command contains blocked pattern: '' @ dq @ ''rm -rf'' @ dq) True)
        \<lparr>pattern := Some ''rm -rf''\<rparr>"
    by code_simp
  have c: "isCommandSafe (JsString ''chmod  777  /'') =
      (mkVerdict False (''Command matches blocked pattern: '' @
           ''/chmod'' @ bs @ ''s+777'' @ bs @ ''s+'' @ bs @ ''//'') True)
        \<lparr>pattern := Some (''/chmod'' @ bs @ ''s+777'' @ bs @ ''s+'' @ bs @ ''//'')\<rparr>"
    by code_simp
  have d: "isCommandSafe (JsString ''hack'') =
      (mkVerdict False (''Command '' @ dq @ ''hack'' @ dq @ '' not in allowlist'') True)
        \<lparr>suggestion := Some ''Try one of these: mkdir, touch, ls, cp, mv...''\<rparr>"
    by code_simp
  have e: "isCommandSafe (JsString ''ls || pwd'') =
      mkVerdict False ''Command chaining not allowed for security'' True"
    by code_simp
  have f: "isCommandSafe (JsString ''echo `pwd`'') =
      mkVerdict False ''Command substitution not allowed for security'' True"
    by code_simp
  have g: "isCommandSafe (JsString ''ls -la'') = mkVerdict True ''Command is safe'' False"
    by code_simp
  have a': "reason (isCommandSafe JsNull) = ''Invalid command format''"
    and b': "pattern (isCommandSafe (JsString ''rm -rf /'')) = Some ''rm -rf''"
    and c': "pattern (isCommandSafe (JsString ''chmod  777  /'')) =
       Some (''/chmod'' @ bs @ ''s+777'' @ bs @ ''s+'' @ bs @ ''//'')"
    and d': "suggestion (isCommandSafe (JsString ''hack'')) =
       Some ''Try one of these: mkdir, touch, ls, cp, mv...''"
    and e': "reason (isCommandSafe (JsString ''ls || pwd'')) =
       ''Command chaining not allowed for security''"
    and f': "reason (isCommandSafe (JsString ''echo `pwd`'')) =
       ''Command substitution not allowed for security''"
    and g': "reason (isCommandSafe (JsString ''ls -la'')) = ''Command is safe''"
    unfolding a b c d e f g by (simp_all add: mkVerdict_def)
  have s: "\<not> safe (isCommandSafe JsNull)"
    "\<not> safe (isCommandSafe (JsString ''rm -rf /''))"
    "\<not> safe (isCommandSafe (JsString ''chmod  777  /''))"
    "\<not> safe (isCommandSafe (JsString ''hack''))"
    "\<not> safe (isCommandSafe (JsString ''ls || pwd''))"
    "\<not> safe (isCommandSafe (JsString ''echo `pwd`''))"
    "safe (isCommandSafe (JsString ''ls -la''))"
    unfolding a b c d e f g by (simp_all add: mkVerdict_def)
  show ?thesis
    using a' b' c' d' e' f' g' s
      isCommandSafe_blocked_iff_unsafe [of JsNull]
      isCommandSafe_blocked_iff_unsafe [of "JsString ''rm -rf /''"]
      isCommandSafe_blocked_iff_unsafe [of "JsString ''chmod  777  /''"]
      isCommandSafe_blocked_iff_unsafe [of "JsString ''hack''"]
      isCommandSafe_blocked_iff_unsafe [of "JsString ''ls || pwd''"]
      isCommandSafe_blocked_iff_unsafe [of "JsString ''echo `pwd`''"]
      isCommandSafe_blocked_iff_unsafe [of "JsString ''ls -la''"]
    by blast
qed

section \<open>The shell runner\<close>

lemma blocked_runner:
  assumes "\<not> safe (isCommandSafe (JsString cmd))"
  shows "executeShellCommand exec cmd =
     (\<lparr>shell_result.success = False,
       output_text = noEntrySign @ '' Command blocked for security: '' @ cmd @ newline @
                   ''Reason: '' @ reason (isCommandSafe (JsString cmd)) @
                   (case suggestion (isCommandSafe (JsString cmd)) of
                      None \<Rightarrow> []
                    | Some sg \<Rightarrow> if sg = [] then [] else newline @ ''Suggestion: '' @ sg),
       blocked = True, code = None\<rparr>,
      [LogSecurity cmd ''BLOCKED'' (reason (isCommandSafe (JsString cmd)))])"
  using assms by (simp add: executeShellCommand_def Let_def)

lemma blocked_runner_V1:
  assumes "\<not> safe (isCommandSafe (JsString cmd))"
  shows "executeShellCommandV1 exec cmd =
     (\<lparr>shell_result.success = False,
       output_text = noEntrySign @ '' Command blocked for security: '' @ cmd @ newline @
                   ''Reason: '' @ reason (isCommandSafe (JsString cmd)) @
                   (case suggestion (isCommandSafe (JsString cmd)) of
                      None \<Rightarrow> []
                    | Some sg \<Rightarrow> if sg = [] then [] else newline @ ''Suggestion: '' @ sg),
       blocked = True, code = None\<rparr>,
      [LogCommand cmd ''BLOCKED'' (reason (isCommandSafe (JsString cmd)))])"
  using assms by (simp add: executeShellCommandV1_def Let_def)

lemma blocked_text_names_reason:
  "str_includes (noEntrySign @ '' Command blocked for security: '' @ cmd @ newline @
                   ''Reason: '' @ r @ rest) r"
proof -
  have "noEntrySign @ '' Command blocked for security: '' @ cmd @ newline @ ''Reason: '' @ r @ rest
     = (noEntrySign @ '' Command blocked for security: '' @ cmd @ newline @ ''Reason: '') @ r @ rest"
    by simp
  then show ?thesis using str_includes_middle by metis
qed

lemma blocked_text_says_blocked:
  "str_includes (noEntrySign @ '' Command blocked for security: '' @ rest) ''blocked''"
proof -
  have "noEntrySign @ '' Command blocked for security: '' @ rest
     = (noEntrySign @ '' Command '') @ ''blocked'' @ ('' for security: '' @ rest)"
    by simp
  then show ?thesis using str_includes_middle by metis
qed

text \<open>
  C3. When the input is classified as a shell command and the policy engine judges the
  command unsafe, the runner (either copy) spawns no subprocess: all it does is hand one
  BLOCKED record to the logger. What it returns has \<open>success\<close> false and \<open>blocked\<close> true,
  and its text contains the word blocked and the reason of the verdict. When recording
  the command in the history does not throw, the executor returns that text with
  \<open>success\<close> false and \<open>blocked\<close> true.
\<close>

theorem unsafe_shell_command_is_never_spawned:
  assumes "parseCommand (JsString inp) = Shell cmd orig"
    and "\<not> safe (isCommandSafe (JsString cmd))"
  shows "shell_result.success (fst (executeShellCommand exec cmd)) = False \<and>
         shell_result.blocked (fst (executeShellCommand exec cmd)) = True \<and>
         str_includes (output_text (fst (executeShellCommand exec cmd)))
           (reason (isCommandSafe (JsString cmd))) \<and>
         str_includes (output_text (fst (executeShellCommand exec cmd))) ''blocked'' \<and>
         snd (executeShellCommand exec cmd) =
           [LogSecurity cmd ''BLOCKED'' (reason (isCommandSafe (JsString cmd)))] \<and>
         (\<forall>c. Spawn c \<notin> set (snd (executeShellCommand exec cmd))) \<and>
         fst (executeShellCommandV1 exec cmd) = fst (executeShellCommand exec cmd) \<and>
         (\<forall>c. Spawn c \<notin> set (snd (executeShellCommandV1 exec cmd))) \<and>
         (history (JsString inp) = Inr () \<longrightarrow>
            (\<exists>r. executeCommand (wired exec memOp fileOp history) (JsString inp) = Inr r \<and>
                 exec_result.success r = False \<and> exec_result.blocked r = Some True \<and>
                 exec_result.result r = output_text (fst (executeShellCommand exec cmd))))"
proof -
  note r2 = blocked_runner [OF assms(2), of exec]
  note r1 = blocked_runner_V1 [OF assms(2), of exec]
  have a: "shell_result.success (fst (executeShellCommand exec cmd)) = False"
    and b: "shell_result.blocked (fst (executeShellCommand exec cmd)) = True"
    and e: "snd (executeShellCommand exec cmd) =
           [LogSecurity cmd ''BLOCKED'' (reason (isCommandSafe (JsString cmd)))]"
    by (simp_all add: r2)
  have c: "str_includes (output_text (fst (executeShellCommand exec cmd)))
           (reason (isCommandSafe (JsString cmd)))"
    unfolding r2 using blocked_text_names_reason by simp
  have d: "str_includes (output_text (fst (executeShellCommand exec cmd))) ''blocked''"
    unfolding r2 using blocked_text_says_blocked by simp
  have f: "\<forall>c. Spawn c \<notin> set (snd (executeShellCommand exec cmd))"
    by (simp add: e)
  have g: "fst (executeShellCommandV1 exec cmd) = fst (executeShellCommand exec cmd)"
    by (simp add: r1 r2)
  have h: "\<forall>c. Spawn c \<notin> set (snd (executeShellCommandV1 exec cmd))"
    by (simp add: r1)
  have i: "history (JsString inp) = Inr () \<longrightarrow>
            (\<exists>r. executeCommand (wired exec memOp fileOp history) (JsString inp) = Inr r \<and>
                 exec_result.success r = False \<and> exec_result.blocked r = Some True \<and>
                 exec_result.result r = output_text (fst (executeShellCommand exec cmd)))"
    using assms(1) a b
    by (simp add: executeCommand_def logExecuting_def wired_def tryCatch_def andThen_def)
  from a b c d e f g h i show ?thesis by blast
qed

theorem unsafe_shell_command_is_never_spawned_witness:
  "parseCommand (JsString ''rm -rf /'') = Shell ''rm -rf /'' ''rm -rf /'' \<and>
   \<not> safe (isCommandSafe (JsString ''rm -rf /'')) \<and>
   snd (executeShellCommand (\<lambda>c. \<lparr>execError = None, stdout = [], stderr = []\<rparr>) ''rm -rf /'') =
     [LogSecurity ''rm -rf /'' ''BLOCKED'' (reason (isCommandSafe (JsString ''rm -rf /'')))] \<and>
   shell_result.blocked
     (fst (executeShellCommand (\<lambda>c. \<lparr>execError = None, stdout = [], stderr = []\<rparr>) ''rm -rf /'')) = True \<and>
   shell_result.success
     (fst (executeShellCommand (\<lambda>c. \<lparr>execError = None, stdout = [], stderr = []\<rparr>) ''rm -rf /'')) = False \<and>
   str_includes
     (output_text (fst (executeShellCommand (\<lambda>c. \<lparr>execError = None, stdout = [], stderr = []\<rparr>) ''rm -rf /'')))
     ''blocked''"
proof -
  have p: "parseCommand (JsString ''rm -rf /'') = Shell ''rm -rf /'' ''rm -rf /''" by code_simp
  have u: "\<not> safe (isCommandSafe (JsString ''rm -rf /''))" by code_simp
  show ?thesis
    using p u unsafe_shell_command_is_never_spawned
      [OF p u, of "\<lambda>c. \<lparr>execError = None, stdout = [], stderr = []\<rparr>"]
    by blast
qed

text \<open>What the runner makes of each error that \<open>exec\<close> reports, for a command the policy
  engine approves. No error: \<open>success\<close>, with \<open>stdout\<close> as the text, or the generic message
  when \<open>stdout\<close> is empty. An error: no \<open>success\<close>, and the code is \<open>E_COMMAND_NOT_FOUND\<close>
  for the system error \<open>ENOENT\<close>, \<open>E_PERMISSION_DENIED\<close> for \<open>EACCES\<close>, \<open>E_COMMAND_TIMEOUT\<close>
  for a process ended by \<open>SIGTERM\<close> (the signal of the timeout) with neither of these
  codes, and \<open>E_COMMAND_FAILED\<close> for an exit status without that signal, with \<open>stderr\<close> as
  the text, or the error's message when \<open>stderr\<close> is empty.\<close>

lemma classification_of_reported_errors:
  assumes "safe (isCommandSafe (JsString cmd))"
  shows "case execError (exec cmd) of
           None \<Rightarrow>
             shell_result.success (fst (executeShellCommand exec cmd)) \<and>
             output_text (fst (executeShellCommand exec cmd)) =
               (if stdout (exec cmd) = [] then ''Command executed successfully''
                else stdout (exec cmd))
         | Some e \<Rightarrow>
             \<not> shell_result.success (fst (executeShellCommand exec cmd)) \<and>
             (errSignal e = Some ''SIGTERM'' \<and> errCode e \<noteq> SystemError ''ENOENT'' \<and>
              errCode e \<noteq> SystemError ''EACCES'' \<longrightarrow>
                shell_result.code (fst (executeShellCommand exec cmd)) = Some ''E_COMMAND_TIMEOUT'') \<and>
             (errCode e = SystemError ''ENOENT'' \<longrightarrow>
                shell_result.code (fst (executeShellCommand exec cmd)) = Some ''E_COMMAND_NOT_FOUND'') \<and>
             (errCode e = SystemError ''EACCES'' \<longrightarrow>
                shell_result.code (fst (executeShellCommand exec cmd)) = Some ''E_PERMISSION_DENIED'') \<and>
             ((\<exists>n. errCode e = ExitStatus n) \<and> errSignal e \<noteq> Some ''SIGTERM'' \<longrightarrow>
                shell_result.code (fst (executeShellCommand exec cmd)) = Some ''E_COMMAND_FAILED'' \<and>
                output_text (fst (executeShellCommand exec cmd)) =
                  (if stderr (exec cmd) = [] then errMessage e else stderr (exec cmd)))"
  using assms
  by (auto simp: executeShellCommand_def classifyError_def orElse_def Let_def
      split: option.splits)

lemma exit_status_is_classified_as_failed:
  assumes "safe (isCommandSafe (JsString cmd))"
    and "execError (exec cmd) = Some e"
    and "errCode e = ExitStatus n"
    and "errSignal e \<noteq> Some ''SIGTERM''"
  shows "shell_result.code (fst (executeShellCommand exec cmd)) = Some ''E_COMMAND_FAILED''"
  using assms
  by (simp add: executeShellCommand_def classifyError_def Let_def)

text \<open>
  What \<open>exec\<close> reports. \<open>child_process.exec\<close> hands the command to a shell, \<open>/bin/sh -c\<close>,
  and the \<open>code\<close> of the error it reports is the exit status of that shell. A shell that
  finds no binary for the first word of the command writes its complaint to \<open>stderr\<close> and
  exits with status 127; one that finds a file it is not permitted to execute exits with
  status 126. A system error such as \<open>ENOENT\<close> is the \<open>code\<close> only when the shell itself
  cannot be started. The complaints are those of \<open>dash\<close>.
\<close>

definition shellFindsNoBinary :: "string \<Rightarrow> exec_outcome" where
  "shellFindsNoBinary c =
     \<lparr>execError =
        Some \<lparr>errCode = ExitStatus 127, errSignal = None,
              errMessage = ''Command failed: '' @ c @ newline @
                           ''/bin/sh: 1: '' @ baseCommandOf c @ '': not found'' @ newline\<rparr>,
      stdout = [],
      stderr = ''/bin/sh: 1: '' @ baseCommandOf c @ '': not found'' @ newline\<rparr>"

definition shellMayNotExecute :: "string \<Rightarrow> exec_outcome" where
  "shellMayNotExecute c =
     \<lparr>execError =
        Some \<lparr>errCode = ExitStatus 126, errSignal = None,
              errMessage = ''Command failed: '' @ c @ newline @
                           ''/bin/sh: 1: '' @ baseCommandOf c @ '': Permission denied'' @ newline\<rparr>,
      stdout = [],
      stderr = ''/bin/sh: 1: '' @ baseCommandOf c @ '': Permission denied'' @ newline\<rparr>"

definition printsNothing :: "string \<Rightarrow> exec_outcome" where
  "printsNothing c = \<lparr>execError = None, stdout = [], stderr = []\<rparr>"

text \<open>
  C9 does not hold of the code for a missing binary and for a permission failure. The
  command \<open>htop\<close> is approved by the policy engine. On a host without \<open>htop\<close> the error
  that \<open>exec\<close> reports carries the exit status 127, not the system error \<open>ENOENT\<close> that the
  runner compares the code with: the runner returns the code \<open>E_COMMAND_FAILED\<close>, with the
  shell's complaint as the text, where the specification asks for \<open>E_COMMAND_NOT_FOUND\<close>.
  On a host where \<open>htop\<close> may not be executed the exit status is 126, and the runner
  returns \<open>E_COMMAND_FAILED\<close> where the specification asks for \<open>E_PERMISSION_DENIED\<close>.
\<close>

theorem missing_binary_is_classified_as_failed:
  "safe (isCommandSafe (JsString ''htop'')) \<and>
   shell_result.success (fst (executeShellCommand shellFindsNoBinary ''htop'')) = False \<and>
   shell_result.code (fst (executeShellCommand shellFindsNoBinary ''htop'')) =
     Some ''E_COMMAND_FAILED'' \<and>
   shell_result.code (fst (executeShellCommand shellFindsNoBinary ''htop'')) \<noteq>
     Some ''E_COMMAND_NOT_FOUND'' \<and>
   output_text (fst (executeShellCommand shellFindsNoBinary ''htop'')) =
     ''/bin/sh: 1: htop: not found'' @ newline \<and>
   shell_result.code (fst (executeShellCommand shellMayNotExecute ''htop'')) =
     Some ''E_COMMAND_FAILED'' \<and>
   shell_result.code (fst (executeShellCommand shellMayNotExecute ''htop'')) \<noteq>
     Some ''E_PERMISSION_DENIED''"
proof -
  have s: "safe (isCommandSafe (JsString ''htop''))" by code_simp
  have a: "shell_result.success (fst (executeShellCommand shellFindsNoBinary ''htop'')) = False"
    by code_simp
  have b: "shell_result.code (fst (executeShellCommand shellFindsNoBinary ''htop'')) =
     Some ''E_COMMAND_FAILED''"
    by code_simp
  have c: "output_text (fst (executeShellCommand shellFindsNoBinary ''htop'')) =
     ''/bin/sh: 1: htop: not found'' @ newline"
    by code_simp
  have d: "shell_result.code (fst (executeShellCommand shellMayNotExecute ''htop'')) =
     Some ''E_COMMAND_FAILED''"
    by code_simp
  from s a b c d show ?thesis by simp
qed

section \<open>The command executor\<close>

text \<open>Sample collaborators: operations that succeed, a history that records and one
  whose write fails, a parser that throws; and a sample argument, the object
  \<open>{toString: 1}\<close>, which has no conversion to a string.\<close>

definition memorySaves :: "string \<Rightarrow> string list \<Rightarrow> op_result throwing" where
  "memorySaves fn args =
     Inr \<lparr>op_result.action = ''Save Memory'', result = ''Memory saved'', success = True, details = []\<rparr>"

definition fileCreated :: "string \<Rightarrow> string list \<Rightarrow> op_result throwing" where
  "fileCreated fn args =
     Inr \<lparr>op_result.action = ''Create File'', result = ''File created successfully'', success = True,
          details = []\<rparr>"

definition historyRecords :: "js_value \<Rightarrow> unit throwing" where
  "historyRecords x = Inr ()"

definition historyWriteFails :: "js_value \<Rightarrow> unit throwing" where
  "historyWriteFails x = Inl ''EACCES: permission denied, open memory.json''"

definition parserThrows :: "js_value \<Rightarrow> parse_result throwing" where
  "parserThrows x = Inl ''Maximum call stack size exceeded''"

definition unprintable :: js_value where
  "unprintable = JsObject (Some ''Cannot convert object to primitive value'')"

lemma executeCommand_start_throws:
  "andThen (logExecuting x) (\<lambda>logged. parser cs x) = Inl err \<Longrightarrow>
   executeCommand cs x =
     Inr \<lparr>input = x, action = ''System Error'',
          result = ''An unexpected error occurred: '' @ err,
          success = False, blocked = None, code = Some ''E_SYSTEM_ERROR''\<rparr>"
  by (auto simp: executeCommand_def tryCatch_def andThen_def split: sum.splits)

lemma executeCommand_memory_throws:
  "logExecuting x = Inr () \<Longrightarrow>
   parser cs x = Inr (MemoryOp fn args orig) \<Longrightarrow>
   andThen (memoryOperation cs fn args) (\<lambda>r. addCommandToHistory cs x) = Inl err \<Longrightarrow>
   executeCommand cs x =
     Inr \<lparr>input = x, action = ''Memory Operation Error'',
          result = ''Error executing memory operation: '' @ err,
          success = False, blocked = None, code = Some ''E_MEMORY_OPERATION_FAILED''\<rparr>"
  by (auto simp: executeCommand_def tryCatch_def andThen_def split: sum.splits)

lemma executeCommand_file_throws:
  "logExecuting x = Inr () \<Longrightarrow>
   parser cs x = Inr (FileOp fn args orig) \<Longrightarrow>
   andThen (fileOperation cs fn args) (\<lambda>r. addCommandToHistory cs x) = Inl err \<Longrightarrow>
   executeCommand cs x =
     Inr \<lparr>input = x, action = ''File Operation Error'',
          result = ''Error executing file operation: '' @ err,
          success = False, blocked = None, code = Some ''E_FILE_OPERATION_FAILED''\<rparr>"
  by (auto simp: executeCommand_def tryCatch_def andThen_def split: sum.splits)

lemma executeCommand_shell_throws:
  "logExecuting x = Inr () \<Longrightarrow>
   parser cs x = Inr (Shell command orig) \<Longrightarrow>
   andThen (shellCommand cs command) (\<lambda>r. addCommandToHistory cs x) = Inl err \<Longrightarrow>
   executeCommand cs x =
     Inr \<lparr>input = x, action = ''Shell Command Error'',
          result = ''Error executing shell command: '' @ err,
          success = False, blocked = None, code = Some ''E_SHELL_COMMAND_FAILED''\<rparr>"
  by (auto simp: executeCommand_def tryCatch_def andThen_def split: sum.splits)

lemma executeCommand_returns: "\<exists>r. executeCommand cs x = Inr r"
  by (auto simp: executeCommand_def tryCatch_def andThen_def
      split: sum.splits parse_result.splits)

lemma executeCommandV1_throws_iff:
  "(executeCommandV1 cs x = Inl err) =
   (andThen (logExecuting x) (\<lambda>logged. parser cs x) = Inl err)"
  by (auto simp: executeCommandV1_def tryCatch_def andThen_def
      split: sum.splits parse_result.splits)

text \<open>
  C8, as stated, fails: when recording the history throws in the file branch, the result
  carries the code \<open>E_FILE_OPERATION_FAILED\<close>, not \<open>E_SYSTEM_ERROR\<close>.
\<close>

theorem executeCommand_error_code_counterexample:
  "executeCommand (wired printsNothing memorySaves fileCreated historyWriteFails)
     (JsString ''create file a.txt'') =
   Inr \<lparr>input = JsString ''create file a.txt'', action = ''File Operation Error'',
        result = ''Error executing file operation: EACCES: permission denied, open memory.json'',
        success = False, blocked = None, code = Some ''E_FILE_OPERATION_FAILED''\<rparr>"
proof -
  have p: "parseCommand (JsString ''create file a.txt'') =
           FileOp ''createFile'' [''a.txt''] ''create file a.txt''"
    by code_simp
  have "executeCommand (wired printsNothing memorySaves fileCreated historyWriteFails)
          (JsString ''create file a.txt'') =
        Inr \<lparr>input = JsString ''create file a.txt'', action = ''File Operation Error'',
          result = ''Error executing file operation: '' @ ''EACCES: permission denied, open memory.json'',
          success = False, blocked = None, code = Some ''E_FILE_OPERATION_FAILED''\<rparr>"
    by (rule executeCommand_file_throws [where fn = "''createFile''" and args = "[''a.txt'']"
          and orig = "''create file a.txt''"])
       (simp_all add: wired_def p fileCreated_def historyWriteFails_def andThen_def
          logExecuting_def)
  then show ?thesis by simp
qed

text \<open>
  C8, amended. The executor never throws: whatever its argument is and whatever its
  collaborators do, it returns a result. An exception thrown inside the memory, file or
  shell branch, by the operation or by recording the history, is caught by that branch's
  own handler and becomes a result without \<open>success\<close> whose code is
  \<open>E_MEMORY_OPERATION_FAILED\<close>, \<open>E_FILE_OPERATION_FAILED\<close> or \<open>E_SHELL_COMMAND_FAILED\<close>; an
  exception thrown before a branch is entered, by the first log statement when the
  argument has no conversion to a string or by the parser, reaches the outer handler and
  becomes a result without \<open>success\<close> whose code is \<open>E_SYSTEM_ERROR\<close>. The earlier copy of
  the executor has no outer handler: it throws exactly when its first log statement or
  the parser throws, and returns a result otherwise.
\<close>

theorem executeCommand_never_throws:
  "(\<exists>r. executeCommand cs x = Inr r) \<and>
   (andThen (logExecuting x) (\<lambda>logged. parser cs x) = Inl err \<longrightarrow>
      executeCommand cs x =
        Inr \<lparr>input = x, action = ''System Error'',
             result = ''An unexpected error occurred: '' @ err,
             success = False, blocked = None, code = Some ''E_SYSTEM_ERROR''\<rparr>) \<and>
   (logExecuting x = Inr () \<and> parser cs x = Inr (MemoryOp fn args orig) \<and>
    andThen (memoryOperation cs fn args) (\<lambda>r. addCommandToHistory cs x) = Inl err \<longrightarrow>
      executeCommand cs x =
        Inr \<lparr>input = x, action = ''Memory Operation Error'',
             result = ''Error executing memory operation: '' @ err,
             success = False, blocked = None, code = Some ''E_MEMORY_OPERATION_FAILED''\<rparr>) \<and>
   (logExecuting x = Inr () \<and> parser cs x = Inr (FileOp fn args orig) \<and>
    andThen (fileOperation cs fn args) (\<lambda>r. addCommandToHistory cs x) = Inl err \<longrightarrow>
      executeCommand cs x =
        Inr \<lparr>input = x, action = ''File Operation Error'',
             result = ''Error executing file operation: '' @ err,
             success = False, blocked = None, code = Some ''E_FILE_OPERATION_FAILED''\<rparr>) \<and>
   (logExecuting x = Inr () \<and> parser cs x = Inr (Shell command orig) \<and>
    andThen (shellCommand cs command) (\<lambda>r. addCommandToHistory cs x) = Inl err \<longrightarrow>
      executeCommand cs x =
        Inr \<lparr>input = x, action = ''Shell Command Error'',
             result = ''Error executing shell command: '' @ err,
             success = False, blocked = None, code = Some ''E_SHELL_COMMAND_FAILED''\<rparr>) \<and>
   ((executeCommandV1 cs x = Inl err) =
      (andThen (logExecuting x) (\<lambda>logged. parser cs x) = Inl err))"
  using executeCommand_returns [of cs x] executeCommand_start_throws [of x cs err]
    executeCommand_memory_throws [of x cs fn args orig err]
    executeCommand_file_throws [of x cs fn args orig err]
    executeCommand_shell_throws [of x cs command orig err]
    executeCommandV1_throws_iff [of cs x err]
  by blast

text \<open>The parser throws on \<open>null\<close>; the first log statement throws on \<open>{toString: 1}\<close>, where
  the parser as wired returns a parse error. The later copy returns a system error both
  times, the earlier copy throws.\<close>

theorem executeCommand_never_throws_witness:
  "executeCommand (wired printsNothing memorySaves fileCreated historyRecords
       \<lparr>parser := parserThrows\<rparr>) JsNull =
     Inr \<lparr>input = JsNull, action = ''System Error'',
          result = ''An unexpected error occurred: Maximum call stack size exceeded'',
          success = False, blocked = None, code = Some ''E_SYSTEM_ERROR''\<rparr> \<and>
   executeCommandV1 (wired printsNothing memorySaves fileCreated historyRecords
       \<lparr>parser := parserThrows\<rparr>) JsNull = Inl ''Maximum call stack size exceeded'' \<and>
   parser (wired printsNothing memorySaves fileCreated historyRecords) unprintable =
     Inr (ParseError ''Invalid input: command must be a non-empty string'') \<and>
   executeCommand (wired printsNothing memorySaves fileCreated historyRecords) unprintable =
     Inr \<lparr>input = unprintable, action = ''System Error'',
          result = ''An unexpected error occurred: Cannot convert object to primitive value'',
          success = False, blocked = None, code = Some ''E_SYSTEM_ERROR''\<rparr> \<and>
   executeCommandV1 (wired printsNothing memorySaves fileCreated historyRecords) unprintable =
     Inl ''Cannot convert object to primitive value''"
proof -
  have a: "andThen (logExecuting JsNull)
      (\<lambda>logged. parser (wired printsNothing memorySaves fileCreated historyRecords
          \<lparr>parser := parserThrows\<rparr>) JsNull) = Inl ''Maximum call stack size exceeded''"
    by (simp add: parserThrows_def logExecuting_def andThen_def)
  have b: "andThen (logExecuting unprintable)
      (\<lambda>logged. parser (wired printsNothing memorySaves fileCreated historyRecords) unprintable) =
      Inl ''Cannot convert object to primitive value''"
    by (simp add: unprintable_def logExecuting_def andThen_def)
  have p: "parser (wired printsNothing memorySaves fileCreated historyRecords) unprintable =
     Inr (ParseError ''Invalid input: command must be a non-empty string'')"
    unfolding unprintable_def wired_def by code_simp
  note t1 = executeCommand_never_throws
      [of "wired printsNothing memorySaves fileCreated historyRecords \<lparr>parser := parserThrows\<rparr>"
          JsNull "''Maximum call stack size exceeded''"]
  note t2 = executeCommand_never_throws
      [of "wired printsNothing memorySaves fileCreated historyRecords"
          unprintable "''Cannot convert object to primitive value''"]
  from a t1 have c: "executeCommand (wired printsNothing memorySaves fileCreated historyRecords
       \<lparr>parser := parserThrows\<rparr>) JsNull =
     Inr \<lparr>input = JsNull, action = ''System Error'',
          result = ''An unexpected error occurred: '' @ ''Maximum call stack size exceeded'',
          success = False, blocked = None, code = Some ''E_SYSTEM_ERROR''\<rparr>"
    and d: "executeCommandV1 (wired printsNothing memorySaves fileCreated historyRecords
       \<lparr>parser := parserThrows\<rparr>) JsNull = Inl ''Maximum call stack size exceeded''"
    by blast+
  from b t2 have e: "executeCommand (wired printsNothing memorySaves fileCreated historyRecords)
       unprintable =
     Inr \<lparr>input = unprintable, action = ''System Error'',
          result = ''An unexpected error occurred: '' @ ''Cannot convert object to primitive value'',
          success = False, blocked = None, code = Some ''E_SYSTEM_ERROR''\<rparr>"
    and f: "executeCommandV1 (wired printsNothing memorySaves fileCreated historyRecords)
       unprintable = Inl ''Cannot convert object to primitive value''"
    by blast+
  from c d p e f show ?thesis by simp
qed

section \<open>The intent parser\<close>

lemma firstMatch_None_iff:
  "firstMatch rows s = None \<longleftrightarrow> (\<forall>row \<in> set rows. search (fst row) s = None)"
  by (induction rows s rule: firstMatch.induct) (auto split: option.splits)

lemma parseCommandString_not_error: "parseCommandString s \<noteq> ParseError e"
  by (simp add: parseCommandString_def Let_def split: option.splits prod.splits)

text \<open>
  C7, as stated, fails twice: the empty string is a string and not null, yet the parser
  answers with an error; and an input that matches no pattern comes back as the shell
  command unchanged, with the white space around it, not trimmed.
\<close>

theorem parseCommand_counterexample:
  "parseCommand (JsString []) = ParseError ''Invalid input: command must be a non-empty string'' \<and>
   firstMatch memoryOpPatterns ''  ls  '' = None \<and>
   firstMatch fileOpPatterns ''  ls  '' = None \<and>
   parseCommand (JsString ''  ls  '') = Shell ''  ls  '' ''  ls  '' \<and>
   trim ''  ls  '' = ''ls''"
proof -
  have a: "parseCommand (JsString []) = ParseError ''Invalid input: command must be a non-empty string''"
    by (simp add: parseCommand_def)
  have b: "firstMatch memoryOpPatterns ''  ls  '' = None" by code_simp
  have c: "firstMatch fileOpPatterns ''  ls  '' = None" by code_simp
  have d: "parseCommand (JsString ''  ls  '') = Shell ''  ls  '' ''  ls  ''"
    by (simp add: parseCommand_def parseCommandString_def b c Let_def)
  have e: "trim ''  ls  '' = ''ls''" by code_simp
  from a b c d e show ?thesis by blast
qed

text \<open>
  C7, amended. \<open>parseCommand\<close> returns an error exactly when its argument is not a
  non-empty string: not a string, null, or the empty string. For a non-empty string that
  no memory pattern and no file pattern matches, the result is the shell variant that
  carries the input as it came, not trimmed, as the command.
\<close>

theorem parseCommand_error_iff_and_fallback:
  "((\<exists>e. parseCommand v = ParseError e) \<longleftrightarrow> \<not> (\<exists>s. v = JsString s \<and> s \<noteq> [])) \<and>
   (s \<noteq> [] \<and> (\<forall>row \<in> set memoryOpPatterns. search (fst row) s = None) \<and>
    (\<forall>row \<in> set fileOpPatterns. search (fst row) s = None) \<longrightarrow>
      parseCommand (JsString s) = Shell s s)"
proof
  show "(\<exists>e. parseCommand v = ParseError e) \<longleftrightarrow> \<not> (\<exists>s. v = JsString s \<and> s \<noteq> [])"
    by (cases v) (auto simp: parseCommand_def parseCommandString_not_error)
next
  show "s \<noteq> [] \<and> (\<forall>row \<in> set memoryOpPatterns. search (fst row) s = None) \<and>
    (\<forall>row \<in> set fileOpPatterns. search (fst row) s = None) \<longrightarrow>
      parseCommand (JsString s) = Shell s s"
  proof
    assume h: "s \<noteq> [] \<and> (\<forall>row \<in> set memoryOpPatterns. search (fst row) s = None) \<and>
      (\<forall>row \<in> set fileOpPatterns. search (fst row) s = None)"
    then have "firstMatch memoryOpPatterns s = None" and "firstMatch fileOpPatterns s = None"
      by (simp_all add: firstMatch_None_iff)
    with h show "parseCommand (JsString s) = Shell s s"
      by (simp add: parseCommand_def parseCommandString_def Let_def)
  qed
qed

theorem parseCommand_error_iff_and_fallback_witness:
  "firstMatch memoryOpPatterns ''hack'' = None \<and>
   firstMatch fileOpPatterns ''hack'' = None \<and>
   parseCommand (JsString ''hack'') = Shell ''hack'' ''hack'' \<and>
   parseCommand JsNull = ParseError ''Invalid input: command must be a non-empty string''"
proof -
  have b: "firstMatch memoryOpPatterns ''hack'' = None" by code_simp
  have c: "firstMatch fileOpPatterns ''hack'' = None" by code_simp
  have m: "\<forall>row \<in> set memoryOpPatterns. search (fst row) ''hack'' = None"
    using b by (simp only: firstMatch_None_iff)
  have f: "\<forall>row \<in> set fileOpPatterns. search (fst row) ''hack'' = None"
    using c by (simp only: firstMatch_None_iff)
  have n: "''hack'' \<noteq> []" by simp
  have e: "parseCommand JsNull = ParseError ''Invalid input: command must be a non-empty string''"
    by (simp add: parseCommand_def)
  show ?thesis
    using b c e m f n parseCommand_error_iff_and_fallback [of JsNull "''hack''"]
    by blast
qed

section \<open>Trimming and lower-casing keep what lies inside\<close>

lemma dropWhile_keeps_infix:
  assumes "sub \<noteq> []" and "\<not> P (hd sub)"
  shows "\<exists>a'. dropWhile P (a @ sub @ b) = a' @ sub @ b"
proof (cases "\<forall>x \<in> set a. P x")
  case True
  then have "dropWhile P (a @ sub @ b) = dropWhile P (sub @ b)"
    by (simp add: dropWhile_append)
  also have "\<dots> = sub @ b"
    using assms by (cases sub) auto
  finally have "dropWhile P (a @ sub @ b) = [] @ sub @ b" by simp
  then show ?thesis by blast
next
  case False
  then have "dropWhile P (a @ sub @ b) = dropWhile P a @ sub @ b"
    by (auto simp: dropWhile_append)
  then show ?thesis by blast
qed

lemma trim_keeps_infix:
  assumes "sub \<noteq> []" and "\<not> isWhiteSpace (hd sub)" and "\<not> isWhiteSpace (last sub)"
    and "str_includes s sub"
  shows "str_includes (trim s) sub"
proof -
  from assms(4) obtain a b where s: "s = a @ sub @ b" by (auto simp: str_includes_iff)
  from dropWhile_keeps_infix [of sub isWhiteSpace a b] assms(1,2) obtain a'
    where a': "dropWhile isWhiteSpace (a @ sub @ b) = a' @ sub @ b" by blast
  have r: "rev sub \<noteq> []" "\<not> isWhiteSpace (hd (rev sub))"
    using assms(1,3) by (simp_all add: hd_rev)
  from dropWhile_keeps_infix [of "rev sub" isWhiteSpace "rev b" "rev a'"] r obtain b'
    where b': "dropWhile isWhiteSpace (rev b @ rev sub @ rev a') = b' @ rev sub @ rev a'" by blast
  have "trim s = a' @ sub @ rev b'"
    by (simp add: trim_def s a' b')
  then show ?thesis by (auto simp: str_includes_iff)
qed

lemma toLowerCase_keeps_infix:
  assumes "toLowerCase sub = sub" and "str_includes s sub"
  shows "str_includes (toLowerCase s) sub"
proof -
  from assms(2) obtain a b where s: "s = a @ sub @ b" by (auto simp: str_includes_iff)
  have "toLowerCase s = toLowerCase a @ toLowerCase sub @ toLowerCase b"
    by (simp add: s toLowerCase_def)
  then show ?thesis using assms(1) by (auto simp: str_includes_iff)
qed

lemma trimmed_lowered_keeps:
  assumes "sub \<noteq> []" and "\<not> isWhiteSpace (hd sub)" and "\<not> isWhiteSpace (last sub)"
    and "toLowerCase sub = sub" and "str_includes s sub"
  shows "str_includes (toLowerCase (trim s)) sub"
  using assms by (intro toLowerCase_keeps_infix trim_keeps_infix)

lemma operator_facts:
  "toLowerCase ''&&'' = ''&&''" "toLowerCase ''||'' = ''||''" "toLowerCase '';'' = '';''"
  "toLowerCase ''$('' = ''$(''" "toLowerCase ''`'' = ''`''"
  "\<not> isWhiteSpace CHR ''&''" "\<not> isWhiteSpace CHR ''|''" "\<not> isWhiteSpace CHR '';''"
  "\<not> isWhiteSpace CHR ''$''" "\<not> isWhiteSpace CHR ''(''" "\<not> isWhiteSpace CHR ''`''"
  by code_simp+

lemma unsafe_when_chained:
  assumes "str_includes t ''&&'' \<or> str_includes t ''||'' \<or> str_includes t '';'' \<or>
           str_includes t ''$('' \<or> str_includes t ''`''"
    and "t = toLowerCase (trim s)"
  shows "\<not> safe (isCommandSafeString s)"
  using assms
  by (auto simp: isCommandSafeString_def mkVerdict_def Let_def split: option.splits)

section \<open>Chaining and substitution\<close>

text \<open>
  C5. A command that contains one of the chaining operators \<open>&&\<close>, \<open>||\<close>, \<open>;\<close>, a
  backquote or \<open>$(\<close> is judged unsafe, whatever its first word is.
\<close>

theorem chaining_and_substitution_are_unsafe:
  assumes "str_includes s ''&&'' \<or> str_includes s ''||'' \<or> str_includes s '';'' \<or>
           str_includes s ''`'' \<or> str_includes s ''$(''"
  shows "safe (isCommandSafe (JsString s)) = False \<and>
         verdict.blocked (isCommandSafe (JsString s)) = True"
proof -
  have "str_includes (toLowerCase (trim s)) ''&&'' \<or>
        str_includes (toLowerCase (trim s)) ''||'' \<or>
        str_includes (toLowerCase (trim s)) '';'' \<or>
        str_includes (toLowerCase (trim s)) ''$('' \<or>
        str_includes (toLowerCase (trim s)) ''`''"
  proof -
    have k1: "str_includes s ''&&'' \<Longrightarrow> str_includes (toLowerCase (trim s)) ''&&''"
      by (rule trimmed_lowered_keeps) (simp_all add: operator_facts)
    have k2: "str_includes s ''||'' \<Longrightarrow> str_includes (toLowerCase (trim s)) ''||''"
      by (rule trimmed_lowered_keeps) (simp_all add: operator_facts)
    have k3: "str_includes s '';'' \<Longrightarrow> str_includes (toLowerCase (trim s)) '';''"
      by (rule trimmed_lowered_keeps) (simp_all add: operator_facts)
    have k4: "str_includes s ''$('' \<Longrightarrow> str_includes (toLowerCase (trim s)) ''$(''"
      by (rule trimmed_lowered_keeps) (simp_all add: operator_facts)
    have k5: "str_includes s ''`'' \<Longrightarrow> str_includes (toLowerCase (trim s)) ''`''"
      by (rule trimmed_lowered_keeps) (simp_all add: operator_facts)
    from assms k1 k2 k3 k4 k5 show ?thesis by blast
  qed
  then have u: "\<not> safe (isCommandSafeString s)"
    by (rule unsafe_when_chained) simp
  have "\<not> safe (isCommandSafe (JsString s))"
    using u by (simp add: isCommandSafe_def mkVerdict_def)
  moreover have "verdict.blocked (isCommandSafe (JsString s)) = (\<not> safe (isCommandSafe (JsString s)))"
    by (simp add: isCommandSafe_def isCommandSafeString_def mkVerdict_def Let_def
        split: option.splits)
  ultimately show ?thesis by simp
qed

theorem chaining_and_substitution_are_unsafe_witness:
  "str_includes ''ls && rm -rf /'' ''&&'' \<and>
   ''ls'' \<in> set allowedCommands \<and>
   safe (isCommandSafe (JsString ''ls && rm -rf /'')) = False \<and>
   safe (isCommandSafe (JsString ''echo $(whoami)'')) = False"
proof -
  have a: "str_includes ''ls && rm -rf /'' ''&&''" by code_simp
  have b: "str_includes ''echo $(whoami)'' ''$(''" by code_simp
  have c: "''ls'' \<in> set allowedCommands" by (simp add: allowedCommands_def)
  show ?thesis
    using a b c chaining_and_substitution_are_unsafe [of "''ls && rm -rf /''"]
      chaining_and_substitution_are_unsafe [of "''echo $(whoami)''"]
    by blast
qed

section \<open>The allowlist\<close>

text \<open>The words of the claim: the first token of a string that white space delimits.\<close>

definition firstWhitespaceToken :: "string \<Rightarrow> string" where
  "firstWhitespaceToken s = takeWhile (\<lambda>c. \<not> isWhiteSpace c) (dropWhile isWhiteSpace s)"

lemma of_char_cases:
  "isWhiteSpace c \<longleftrightarrow> (of_char c :: nat) \<in> {9, 10, 11, 12, 13, 32, 160}"
proof -
  have e: "\<And>d. (c = d) = ((of_char c :: nat) = of_char d)" by simp
  show ?thesis
    unfolding isWhiteSpace_def
    by (subst e)+ simp
qed

lemma isWhiteSpace_toLowerChar: "isWhiteSpace (toLowerChar c) = isWhiteSpace c"
proof -
  have "(of_char c :: nat) < 256" by simp
  then show ?thesis
    unfolding of_char_cases 
    by (auto simp: toLowerChar_def Let_def)
qed


lemma takeWhile_toLowerCase:
  "takeWhile (\<lambda>c. \<not> isWhiteSpace c) (toLowerCase t) =
   toLowerCase (takeWhile (\<lambda>c. \<not> isWhiteSpace c) t)"
  by (simp add: toLowerCase_def takeWhile_map comp_def isWhiteSpace_toLowerChar)

lemma takeWhile_without_trailing:
  "takeWhile (\<lambda>c. \<not> P c) (rev (dropWhile P (rev xs))) = takeWhile (\<lambda>c. \<not> P c) xs"
proof -
  define ys where "ys = rev (dropWhile P (rev xs))"
  define zs where "zs = rev (takeWhile P (rev xs))"
  have "rev (takeWhile P (rev xs) @ dropWhile P (rev xs)) = xs" by simp
  then have "rev (dropWhile P (rev xs)) @ rev (takeWhile P (rev xs)) = xs"
    by (simp only: rev_append)
  then have xs: "xs = ys @ zs" by (simp add: ys_def zs_def)
  have zs: "\<forall>x \<in> set zs. P x"
    by (auto simp: zs_def dest: set_takeWhileD)
  then have z0: "takeWhile (\<lambda>c. \<not> P c) zs = []"
    by (cases zs) auto
  have "takeWhile (\<lambda>c. \<not> P c) (ys @ zs) = takeWhile (\<lambda>c. \<not> P c) ys"
  proof (cases "\<forall>x \<in> set ys. \<not> P x")
    case True
    then have "takeWhile (\<lambda>c. \<not> P c) (ys @ zs) = ys @ takeWhile (\<lambda>c. \<not> P c) zs"
      by (simp add: takeWhile_append)
    also have "\<dots> = ys" by (simp only: z0 append_Nil2)
    also have "ys = takeWhile (\<lambda>c. \<not> P c) ys"
      using True by (simp add: takeWhile_eq_all_conv [THEN iffD2])
    finally show ?thesis .
  next
    case False
    then show ?thesis by (auto simp: takeWhile_append)
  qed
  then have "takeWhile (\<lambda>c. \<not> P c) xs = takeWhile (\<lambda>c. \<not> P c) ys"
    using xs by simp
  then show ?thesis by (simp add: ys_def)
qed

lemma firstWhitespaceToken_trim:
  "takeWhile (\<lambda>c. \<not> isWhiteSpace c) (trim s) = firstWhitespaceToken s"
  by (simp add: trim_def firstWhitespaceToken_def takeWhile_without_trailing)

lemma baseCommandOf_takeWhile: "baseCommandOf t = takeWhile (\<lambda>c. c \<noteq> CHR '' '') t"
proof -
  have "\<exists>ws. split d t = takeWhile (\<lambda>c. c \<noteq> d) t # ws" for d
    by (induction t) (auto split: list.splits)
  then obtain ws where "split CHR '' '' t = takeWhile (\<lambda>c. c \<noteq> CHR '' '') t # ws" by blast
  then show ?thesis by (simp add: baseCommandOf_def)
qed

lemma takeWhile_space_is_token:
  "\<forall>x \<in> set (takeWhile (\<lambda>c. c \<noteq> CHR '' '') t). \<not> isWhiteSpace x \<Longrightarrow>
   takeWhile (\<lambda>c. \<not> isWhiteSpace c) t = takeWhile (\<lambda>c. c \<noteq> CHR '' '') t"
proof (induction t)
  case Nil
  then show ?case by simp
next
  case (Cons c cs)
  show ?case
  proof (cases "c = CHR '' ''")
    case True
    then show ?thesis by (simp add: isWhiteSpace_def)
  next
    case False
    with Cons show ?thesis by simp
  qed
qed

lemma allowedCommands_have_no_space:
  "w \<in> set allowedCommands \<Longrightarrow> \<forall>x \<in> set w. \<not> isWhiteSpace x"
proof -
  have "list_all (list_all (\<lambda>x. \<not> isWhiteSpace x)) allowedCommands" by code_simp
  then show "w \<in> set allowedCommands \<Longrightarrow> \<forall>x \<in> set w. \<not> isWhiteSpace x"
    by (simp add: list_all_iff)
qed

lemma allowed_base_is_token:
  assumes "baseCommandOf (toLowerCase (trim s)) \<in> set allowedCommands"
  shows "baseCommandOf (toLowerCase (trim s)) = toLowerCase (firstWhitespaceToken s)"
proof -
  let ?t = "toLowerCase (trim s)"
  have "\<forall>x \<in> set (takeWhile (\<lambda>c. c \<noteq> CHR '' '') ?t). \<not> isWhiteSpace x"
    using allowedCommands_have_no_space [OF assms] by (simp add: baseCommandOf_takeWhile)
  then have "takeWhile (\<lambda>c. \<not> isWhiteSpace c) ?t = baseCommandOf ?t"
    by (simp add: takeWhile_space_is_token baseCommandOf_takeWhile)
  then show ?thesis
    by (simp add: takeWhile_toLowerCase firstWhitespaceToken_trim)
qed

lemma suggestion_text:
  "''Try one of these: '' @ join '', '' (take 5 allowedCommands) @ ''...'' =
   ''Try one of these: mkdir, touch, ls, cp, mv...''"
  by code_simp

text \<open>
  C6, as stated, fails. The empty string hits no denylist entry and has no token in the
  allowlist, yet the verdict, though unsafe, carries no suggestion: the guard against
  empty input answers first. And \<open>LS\<close> is not a member of the allowlist, yet the verdict is
  safe: the token is lower-cased before it is looked up.
\<close>

theorem allowlist_counterexample:
  "firstBlockedCommand (toLowerCase (trim [])) = None \<and>
   firstBlockedPattern [] = None \<and>
   firstWhitespaceToken [] \<notin> set allowedCommands \<and>
   suggestion (isCommandSafe (JsString [])) = None \<and>
   firstBlockedCommand (toLowerCase (trim ''LS'')) = None \<and>
   firstBlockedPattern ''LS'' = None \<and>
   firstWhitespaceToken ''LS'' = ''LS'' \<and>
   ''LS'' \<notin> set allowedCommands \<and>
   safe (isCommandSafe (JsString ''LS'')) = True"
proof -
  have a: "firstBlockedCommand (toLowerCase (trim [])) = None" by code_simp
  have b: "firstBlockedPattern [] = None" by code_simp
  have c: "firstWhitespaceToken [] \<notin> set allowedCommands"
    by (simp add: firstWhitespaceToken_def allowedCommands_def)
  have d: "suggestion (isCommandSafe (JsString [])) = None"
    by (simp add: isCommandSafe_def mkVerdict_def)
  have e: "firstBlockedCommand (toLowerCase (trim ''LS'')) = None" by code_simp
  have f: "firstBlockedPattern ''LS'' = None" by code_simp
  have g: "firstWhitespaceToken ''LS'' = ''LS''" by code_simp
  have h: "''LS'' \<notin> set allowedCommands" by (simp add: allowedCommands_def)
  have i: "safe (isCommandSafe (JsString ''LS'')) = True" by code_simp
  from a b c d e f g h i show ?thesis by blast
qed

text \<open>
  C6, amended. For every non-empty string that hits no entry of the literal denylist and
  no pattern of the pattern denylist, and whose first white-space-delimited token, in
  lower case, is not a member of the allowlist, the verdict is unsafe and carries the
  suggestion \<open>Try one of these: mkdir, touch, ls, cp, mv...\<close>, which names allowed commands.
\<close>

theorem unlisted_command_gets_suggestion:
  assumes "s \<noteq> []"
    and "\<forall>b \<in> set blockedCommands. \<not> str_includes (toLowerCase (trim s)) (toLowerCase b)"
    and "\<forall>p \<in> set blockedPatterns. \<not> test (snd p) s"
    and "toLowerCase (firstWhitespaceToken s) \<notin> set allowedCommands"
  shows "safe (isCommandSafe (JsString s)) = False \<and>
         suggestion (isCommandSafe (JsString s)) =
           Some ''Try one of these: mkdir, touch, ls, cp, mv...'' \<and>
         (\<exists>c \<in> set allowedCommands.
            str_includes ''Try one of these: mkdir, touch, ls, cp, mv...'' c)"
proof -
  have l: "firstBlockedCommand (toLowerCase (trim s)) = None"
    using assms(2) by (simp add: firstBlockedCommand_def find_None_iff)
  have p: "firstBlockedPattern s = None"
    using assms(3) by (force simp: firstBlockedPattern_def find_None_iff)
  have n: "baseCommandOf (toLowerCase (trim s)) \<notin> set allowedCommands"
    using assms(4) allowed_base_is_token [of s] by auto
  have "isCommandSafe (JsString s) =
      (mkVerdict False (''Command '' @ dq @ baseCommandOf (toLowerCase (trim s)) @ dq @
          '' not in allowlist'') True)
        \<lparr>suggestion :=
           Some (''Try one of these: '' @ join '', '' (take 5 allowedCommands) @ ''...'')\<rparr>"
    using assms(1) l p n
    by (simp add: isCommandSafe_def isCommandSafeString_def Let_def)
  then have v: "isCommandSafe (JsString s) =
      (mkVerdict False (''Command '' @ dq @ baseCommandOf (toLowerCase (trim s)) @ dq @
          '' not in allowlist'') True)
        \<lparr>suggestion := Some ''Try one of these: mkdir, touch, ls, cp, mv...''\<rparr>"
    by (simp only: suggestion_text)
  have m: "''mkdir'' \<in> set allowedCommands" by (simp add: allowedCommands_def)
  have i: "str_includes ''Try one of these: mkdir, touch, ls, cp, mv...'' ''mkdir''" by code_simp
  have e: "\<exists>c \<in> set allowedCommands.
            str_includes ''Try one of these: mkdir, touch, ls, cp, mv...'' c"
    using m i by blast
  have "safe (isCommandSafe (JsString s)) = False"
    and "suggestion (isCommandSafe (JsString s)) =
           Some ''Try one of these: mkdir, touch, ls, cp, mv...''"
    by (simp_all add: v mkVerdict_def)
  with e show ?thesis by blast
qed

theorem unlisted_command_gets_suggestion_witness:
  "toLowerCase (firstWhitespaceToken ''hack the planet'') = ''hack'' \<and>
   ''hack'' \<notin> set allowedCommands \<and>
   safe (isCommandSafe (JsString ''hack the planet'')) = False \<and>
   suggestion (isCommandSafe (JsString ''hack the planet'')) =
     Some ''Try one of these: mkdir, touch, ls, cp, mv...''"
proof -
  have a: "''hack the planet'' \<noteq> []" by simp
  have "firstBlockedCommand (toLowerCase (trim ''hack the planet'')) = None" by code_simp
  then have b: "\<forall>b \<in> set blockedCommands.
      \<not> str_includes (toLowerCase (trim ''hack the planet'')) (toLowerCase b)"
    by (simp only: firstBlockedCommand_def find_None_iff) blast
  have "firstBlockedPattern ''hack the planet'' = None" by code_simp
  then have c: "\<forall>p \<in> set blockedPatterns. \<not> test (snd p) ''hack the planet''"
    by (simp only: firstBlockedPattern_def find_None_iff) blast
  have t: "toLowerCase (firstWhitespaceToken ''hack the planet'') = ''hack''" by code_simp
  have n: "''hack'' \<notin> set allowedCommands" by (simp add: allowedCommands_def)
  have d: "toLowerCase (firstWhitespaceToken ''hack the planet'') \<notin> set allowedCommands"
    using t n by simp
  show ?thesis
    using t n unlisted_command_gets_suggestion [OF a b c d] by blast
qed

section \<open>Path confinement\<close>








lemma not_directory_is_file:
  assumes "pathExists fs p" and "\<not> isDirectory fs p"
  shows "\<exists>c. lookup fs p = Some (File c)"
proof -
  from assms have "lookup fs p \<noteq> None" and "lookup fs p \<noteq> Some Directory"
    by (auto simp: pathExists_def isDirectory_def)
  then show ?thesis by (cases "lookup fs p") (auto intro: node.exhaust)
qed























section \<open>The denylists and letter case\<close>

lemma trim_toLowerCase: "trim (toLowerCase s) = toLowerCase (trim s)"
  by (simp add: trim_def toLowerCase_def dropWhile_map rev_map comp_def isWhiteSpace_toLowerChar)

lemma blockedCommands_shape:
  assumes "b \<in> set blockedCommands"
  shows "toLowerCase b \<noteq> []" and "\<not> isWhiteSpace (hd (toLowerCase b))"
    and "\<not> isWhiteSpace (last (toLowerCase b))"
proof -
  have "list_all (\<lambda>b. toLowerCase b \<noteq> [] \<and> \<not> isWhiteSpace (hd (toLowerCase b)) \<and>
          \<not> isWhiteSpace (last (toLowerCase b))) blockedCommands"
    by code_simp
  with assms show "toLowerCase b \<noteq> []" and "\<not> isWhiteSpace (hd (toLowerCase b))"
    and "\<not> isWhiteSpace (last (toLowerCase b))"
    by (simp_all add: list_all_iff)
qed

lemma unsafe_when_literal_hits:
  assumes "firstBlockedCommand (toLowerCase (trim s)) \<noteq> None"
  shows "\<not> safe (isCommandSafe (JsString s))"
  using assms
  by (auto simp: isCommandSafe_def isCommandSafeString_def mkVerdict_def Let_def)

lemma unsafe_when_pattern_hits:
  assumes "firstBlockedPattern s \<noteq> None"
  shows "\<not> safe (isCommandSafe (JsString s))"
  using assms
  by (auto simp: isCommandSafe_def isCommandSafeString_def mkVerdict_def Let_def
      split: option.splits)

text \<open>What holds of the two denylists: a member of the literal denylist anywhere in the
  string, in any letter case and with any white space around, and a match of a member of
  the pattern denylist in the string as it is written, make the verdict unsafe.\<close>

lemma literal_denylist_ignores_case:
  assumes "b \<in> set blockedCommands"
    and "str_includes (toLowerCase s) (toLowerCase b)"
  shows "safe (isCommandSafe (JsString s)) = False"
proof -
  have "str_includes (trim (toLowerCase s)) (toLowerCase b)"
    using blockedCommands_shape [OF assms(1)] assms(2) by (intro trim_keeps_infix)
  then have "str_includes (toLowerCase (trim s)) (toLowerCase b)"
    by (simp add: trim_toLowerCase)
  with assms(1) have "firstBlockedCommand (toLowerCase (trim s)) \<noteq> None"
    by (auto simp: firstBlockedCommand_def find_None_iff)
  then show ?thesis using unsafe_when_literal_hits by simp
qed

lemma pattern_denylist_as_written:
  assumes "p \<in> set blockedPatterns" and "test (snd p) s"
  shows "safe (isCommandSafe (JsString s)) = False"
proof -
  from assms have "\<exists>x \<in> set blockedPatterns. test (snd x) s" by blast
  then have "firstBlockedPattern s \<noteq> None"
    unfolding firstBlockedPattern_def find_None_iff by blast
  then show ?thesis using unsafe_when_pattern_hits by simp
qed

text \<open>
  C4. A string whose lower-case form matches a member of the pattern denylist ought to be
  unsafe. The patterns are tested on the command as written, without the flag \<open>i\<close>: the
  string \<open>CHMOD  777  /\<close>, with its two spaces, hits no literal of the denylist, its
  lower-case form matches the pattern for \<open>chmod 777\<close> on a path from the root, and the
  verdict is safe, while the same command in lower case is unsafe.
\<close>

theorem uppercase_pattern_variant_is_judged_safe:
  "(''chmod'' @ bs @ ''s+777'' @ bs @ ''s+'' @ bs @ ''/'',
      lit ''chmod'' @ spaces @ lit ''777'' @ spaces @ lit ''/'') \<in> set blockedPatterns \<and>
   toLowerCase ''CHMOD  777  /'' = ''chmod  777  /'' \<and>
   test (lit ''chmod'' @ spaces @ lit ''777'' @ spaces @ lit ''/'') ''chmod  777  /'' = True \<and>
   safe (isCommandSafe (JsString ''chmod  777  /'')) = False \<and>
   safe (isCommandSafe (JsString ''CHMOD  777  /'')) = True"
proof -
  have a: "(''chmod'' @ bs @ ''s+777'' @ bs @ ''s+'' @ bs @ ''/'',
      lit ''chmod'' @ spaces @ lit ''777'' @ spaces @ lit ''/'') \<in> set blockedPatterns"
    by (simp add: blockedPatterns_def)
  have b: "toLowerCase ''CHMOD  777  /'' = ''chmod  777  /''" by code_simp
  have c: "test (lit ''chmod'' @ spaces @ lit ''777'' @ spaces @ lit ''/'') ''chmod  777  /'' = True"
    by code_simp
  have d: "safe (isCommandSafe (JsString ''chmod  777  /'')) = False" by code_simp
  have e: "safe (isCommandSafe (JsString ''CHMOD  777  /'')) = True" by code_simp
  from a b c d e show ?thesis by blast
qed

section \<open>The sandbox root as a string prefix\<close>

text \<open>The home directory is an absolute path in normal form: a slash, then segments
  joined by slashes, none of them empty, \<open>.\<close> or \<open>..\<close>, none with a slash inside.\<close>

definition cleanSegment :: "string \<Rightarrow> bool" where
  "cleanSegment seg = (seg \<noteq> [] \<and> seg \<noteq> ''.'' \<and> seg \<noteq> ''..'' \<and> CHR ''/'' \<notin> set seg)"

lemma split_nonempty: "split d s \<noteq> []"
  by (induction s) (auto split: list.splits)

lemma split_no_separator: "d \<notin> set s \<Longrightarrow> split d s = [s]"
  by (induction s) auto

lemma split_append: "split d (a @ d # b) = split d a @ split d b"
proof (induction a)
  case Nil
  show ?case by simp
next
  case (Cons c cs)
  obtain w ws where w: "split d cs = w # ws"
    using split_nonempty [of d cs] by (cases "split d cs") auto
  show ?case
  proof (cases "c = d")
    case True
    then show ?thesis using Cons by simp
  next
    case False
    then show ?thesis using Cons w by simp
  qed
qed

lemma split_join:
  assumes "\<forall>x \<in> set xs. d \<notin> set x" and "xs \<noteq> []"
  shows "split d (join [d] xs) = xs"
  using assms
proof (induction "[d]" xs rule: join.induct)
  case 1
  then show ?case by simp
next
  case (2 x)
  then show ?case by (simp add: split_no_separator)
next
  case (3 x y ys)
  then show ?case by (simp add: split_append split_no_separator)
qed

lemma split_absolute:
  assumes "list_all cleanSegment xs"
  shows "split CHR ''/'' (''/'' @ join ''/'' xs) = [] # (if xs = [] then [[]] else xs)"
proof (cases "xs = []")
  case True
  then show ?thesis by simp
next
  case False
  have "\<forall>x \<in> set xs. CHR ''/'' \<notin> set x"
    using assms by (simp add: list_all_iff cleanSegment_def)
  then have "split CHR ''/'' (join ''/'' xs) = xs"
    using False split_join [of xs "CHR ''/''"] by simp
  then show ?thesis using False by simp
qed

lemma normalize_clean:
  assumes "list_all (\<lambda>s. s = [] \<or> cleanSegment s) xs"
  shows "foldl (normalizeStep a) acc xs = acc @ filter (\<lambda>s. s \<noteq> []) xs"
  using assms
  by (induction xs arbitrary: acc) (auto simp: normalizeStep_def cleanSegment_def)

lemma normalize_absolute:
  assumes "list_all cleanSegment xs"
  shows "foldl (normalizeStep a) acc (split CHR ''/'' (''/'' @ join ''/'' xs)) = acc @ xs"
proof -
  have f: "filter (\<lambda>s. s \<noteq> []) xs = xs"
    using assms by (auto simp: list_all_iff cleanSegment_def filter_id_conv)
  have "list_all (\<lambda>s. s = [] \<or> cleanSegment s) ([] # (if xs = [] then [[]] else xs))"
    using assms by (auto simp: list_all_iff)
  then have "foldl (normalizeStep a) acc ([] # (if xs = [] then [[]] else xs)) =
      acc @ filter (\<lambda>s. s \<noteq> []) ([] # (if xs = [] then [[]] else xs))"
    by (rule normalize_clean)
  then show ?thesis
    unfolding split_absolute [OF assms] using f by (simp split: if_splits)
qed

lemma segments_absolute:
  assumes "list_all cleanSegment xs"
  shows "segments (''/'' @ join ''/'' xs) = xs"
proof -
  have f: "filter (\<lambda>s. s \<noteq> []) xs = xs"
    using assms by (auto simp: list_all_iff cleanSegment_def filter_id_conv)
  show ?thesis
    unfolding segments_def split_absolute [OF assms] using f by simp
qed

lemma join_snoc: "xs \<noteq> [] \<Longrightarrow> join sep (xs @ [y]) = join sep xs @ sep @ y"
  by (induction sep xs rule: join.induct) auto

lemma join_nonempty: "xs \<noteq> [] \<Longrightarrow> list_all cleanSegment xs \<Longrightarrow> join sep xs \<noteq> []"
  by (induction sep xs rule: join.induct) (auto simp: cleanSegment_def)


lemma PROJECT_ROOT_absolute:
  assumes "list_all cleanSegment hs"
  shows "PROJECT_ROOT (''/'' @ join ''/'' hs) =
         ''/'' @ join ''/'' (hs @ [''Desktop'', ''VOICE-CMD''])"
proof -
  define home where "home = ''/'' @ join ''/'' hs"
  have h0: "home \<noteq> []" and h1: "startsWith home ''/''"
    by (simp_all add: home_def)
  have j: "join ''/'' (filter (\<lambda>a. a \<noteq> []) [home, ''Desktop'', ''VOICE-CMD'']) =
           home @ ''/Desktop/VOICE-CMD''"
    using h0 by simp
  have sp: "split CHR ''/'' (home @ ''/Desktop/VOICE-CMD'') =
            split CHR ''/'' home @ [''Desktop'', ''VOICE-CMD'']"
    by (simp add: split_append)
  have fh: "foldl (normalizeStep False) [] (split CHR ''/'' home) = hs"
    unfolding home_def using normalize_absolute [OF assms, of False "[]"] by simp
  have n: "normalizeString (home @ ''/Desktop/VOICE-CMD'') False =
           join ''/'' (hs @ [''Desktop'', ''VOICE-CMD''])"
    unfolding normalizeString_def sp foldl_append fh
    by (simp add: normalizeStep_def)
  have c: "list_all cleanSegment (hs @ [''Desktop'', ''VOICE-CMD''])"
    using assms by (simp add: cleanSegment_def)
  have ne: "join ''/'' (hs @ [''Desktop'', ''VOICE-CMD'']) \<noteq> []"
    by (rule join_nonempty [OF _ c]) simp
  have a: "startsWith (home @ ''/Desktop/VOICE-CMD'') ''/''"
    using h0 h1 by (cases home) auto
  have "path_normalize (home @ ''/Desktop/VOICE-CMD'') =
        ''/'' @ join ''/'' (hs @ [''Desktop'', ''VOICE-CMD''])"
    using ne a n by (simp add: path_normalize_def Let_def)
  then show ?thesis
    unfolding PROJECT_ROOT_def path_join_def Let_def j home_def [symmetric] by simp
qed

lemma resolve_sibling:
  assumes "list_all cleanSegment xs" and "xs \<noteq> []" and "cleanSegment x"
  shows "path_resolve cwd [''/'' @ join ''/'' (xs @ [x]), ''../VOICE-CMD-backup''] =
         ''/'' @ join ''/'' (xs @ [''VOICE-CMD-backup''])"
proof -
  define root where "root = ''/'' @ join ''/'' (xs @ [x])"
  have c: "list_all cleanSegment (xs @ [x])" using assms by simp
  have r0: "root \<noteq> []" and r1: "startsWith root ''/''"
    by (simp_all add: root_def)
  have l: "resolveLoop cwd (rev [root, ''../VOICE-CMD-backup'']) [] =
           (root @ ''/../VOICE-CMD-backup/'', True)"
    using r0 r1 by simp
  have sp: "split CHR ''/'' (root @ ''/../VOICE-CMD-backup/'') =
            split CHR ''/'' root @ [''..'', ''VOICE-CMD-backup'', []]"
    by (simp add: split_append)
  have fr: "foldl (normalizeStep False) [] (split CHR ''/'' root) = xs @ [x]"
    unfolding root_def using normalize_absolute [OF c, of False "[]"] by simp
  have "normalizeString (root @ ''/../VOICE-CMD-backup/'') False =
        join ''/'' (xs @ [''VOICE-CMD-backup''])"
    unfolding normalizeString_def sp foldl_append fr
    using assms(3) by (simp add: normalizeStep_def cleanSegment_def)
  then show ?thesis
    unfolding path_resolve_def l root_def [symmetric] by simp
qed


lemma isPathSafe_decides_by_prefix:
  assumes "userPath \<noteq> []"
  shows "safe (isPathSafe home cwd (JsString userPath)) =
         startsWith (path_resolve cwd [PROJECT_ROOT home, userPath]) (PROJECT_ROOT home)"
    and "resolvedPath (isPathSafe home cwd (JsString userPath)) =
         Some (path_resolve cwd [PROJECT_ROOT home, userPath])"
  using assms by (simp_all add: isPathSafe_def isPathSafeString_def Let_def mkVerdict_def)

text \<open>
  C2. \<open>isPathSafe\<close> decides by comparing strings: for every home directory and every
  non-empty path argument, the verdict is safe exactly when the resolved path starts with
  the sandbox root as a string, so that every resolved path that extends the root's name
  is judged safe. And whatever the home directory, there is a path argument,
  \<open>../VOICE-CMD-backup\<close>, that \<open>isPathSafe\<close> judges safe although it resolves to a sibling of
  the sandbox root, not to a path inside it: the resolved path is the root's own name with
  \<open>-backup\<close> appended.
\<close>

theorem isPathSafe_accepts_sibling_directory:
  assumes "list_all cleanSegment hs"
  shows "safe (isPathSafe (''/'' @ join ''/'' hs) cwd (JsString ''../VOICE-CMD-backup'')) = True \<and>
         resolvedPath (isPathSafe (''/'' @ join ''/'' hs) cwd (JsString ''../VOICE-CMD-backup'')) =
           Some (path_resolve cwd [PROJECT_ROOT (''/'' @ join ''/'' hs), ''../VOICE-CMD-backup'']) \<and>
         path_resolve cwd [PROJECT_ROOT (''/'' @ join ''/'' hs), ''../VOICE-CMD-backup''] =
           PROJECT_ROOT (''/'' @ join ''/'' hs) @ ''-backup'' \<and>
         insideDirectory (PROJECT_ROOT (''/'' @ join ''/'' hs))
           (path_resolve cwd [PROJECT_ROOT (''/'' @ join ''/'' hs), ''../VOICE-CMD-backup'']) = False \<and>
         (userPath \<noteq> [] \<longrightarrow>
            safe (isPathSafe home cwd (JsString userPath)) =
              startsWith (path_resolve cwd [PROJECT_ROOT home, userPath]) (PROJECT_ROOT home)) \<and>
         (userPath \<noteq> [] \<and>
          path_resolve cwd [PROJECT_ROOT home, userPath] = PROJECT_ROOT home @ extension \<longrightarrow>
            safe (isPathSafe home cwd (JsString userPath)) = True)"
proof -
  define root where "root = PROJECT_ROOT (''/'' @ join ''/'' hs)"
  define resolved where "resolved = path_resolve cwd [root, ''../VOICE-CMD-backup'']"
  have c1: "list_all cleanSegment (hs @ [''Desktop''])"
    using assms by (simp add: cleanSegment_def)
  have c2: "list_all cleanSegment (hs @ [''Desktop'', ''VOICE-CMD''])"
    using assms by (simp add: cleanSegment_def)
  have c3: "list_all cleanSegment (hs @ [''Desktop'', ''VOICE-CMD-backup''])"
    using assms by (simp add: cleanSegment_def)
  have r: "root = ''/'' @ join ''/'' (hs @ [''Desktop'', ''VOICE-CMD''])"
    unfolding root_def by (rule PROJECT_ROOT_absolute [OF assms])
  have "root = ''/'' @ join ''/'' ((hs @ [''Desktop'']) @ [''VOICE-CMD''])"
    by (simp add: r)
  then have "resolved = ''/'' @ join ''/'' ((hs @ [''Desktop'']) @ [''VOICE-CMD-backup''])"
    unfolding resolved_def
    using resolve_sibling [OF c1, of "''VOICE-CMD''" cwd] by (simp add: cleanSegment_def)
  then have v: "resolved = ''/'' @ join ''/'' (hs @ [''Desktop'', ''VOICE-CMD-backup''])"
    by simp
  have j1: "join ''/'' ((hs @ [''Desktop'']) @ [''VOICE-CMD-backup'']) =
        join ''/'' (hs @ [''Desktop'']) @ ''/'' @ ''VOICE-CMD-backup''"
    by (rule join_snoc) simp
  have j2: "join ''/'' ((hs @ [''Desktop'']) @ [''VOICE-CMD'']) =
        join ''/'' (hs @ [''Desktop'']) @ ''/'' @ ''VOICE-CMD''"
    by (rule join_snoc) simp
  from j1 j2 have e: "resolved = root @ ''-backup''"
    by (simp add: v r)
  then have w: "startsWith resolved root"
    by (auto simp: startsWith_iff)
  have s1: "segments root = hs @ [''Desktop'', ''VOICE-CMD'']"
    unfolding r by (rule segments_absolute [OF c2])
  have s2: "segments resolved = hs @ [''Desktop'', ''VOICE-CMD-backup'']"
    unfolding v by (rule segments_absolute [OF c3])
  have i: "\<not> insideDirectory root resolved"
    by (simp add: insideDirectory_def s1 s2)
  note w' = w [unfolded resolved_def root_def]
  note e' = e [unfolded resolved_def root_def]
  note i' = i [unfolded resolved_def root_def]
  have a: "safe (isPathSafe (''/'' @ join ''/'' hs) cwd (JsString ''../VOICE-CMD-backup'')) = True"
    using w' isPathSafe_decides_by_prefix(1) [of "''../VOICE-CMD-backup''" "''/'' @ join ''/'' hs" cwd]
    by simp
  have b: "resolvedPath (isPathSafe (''/'' @ join ''/'' hs) cwd (JsString ''../VOICE-CMD-backup'')) =
           Some (path_resolve cwd [PROJECT_ROOT (''/'' @ join ''/'' hs), ''../VOICE-CMD-backup''])"
    by (rule isPathSafe_decides_by_prefix(2)) simp
  have g: "userPath \<noteq> [] \<longrightarrow>
            safe (isPathSafe home cwd (JsString userPath)) =
              startsWith (path_resolve cwd [PROJECT_ROOT home, userPath]) (PROJECT_ROOT home)"
    using isPathSafe_decides_by_prefix(1) by blast
  have h: "userPath \<noteq> [] \<and>
          path_resolve cwd [PROJECT_ROOT home, userPath] = PROJECT_ROOT home @ extension \<longrightarrow>
            safe (isPathSafe home cwd (JsString userPath)) = True"
    using isPathSafe_decides_by_prefix(1) [of userPath home cwd]
    by (auto simp: startsWith_iff)
  from a b e' i' g h show ?thesis by blast
qed

text \<open>With the home directory \<open>/home/user\<close>: the sibling \<open>VOICE-CMD-backup\<close> is judged safe,
  and \<open>../../etc/passwd\<close>, which does not start with the root, is not.\<close>

theorem isPathSafe_accepts_sibling_directory_witness:
  "PROJECT_ROOT ''/home/user'' = ''/home/user/Desktop/VOICE-CMD'' \<and>
   safe (isPathSafe ''/home/user'' ''/srv/app'' (JsString ''../VOICE-CMD-backup'')) = True \<and>
   resolvedPath (isPathSafe ''/home/user'' ''/srv/app'' (JsString ''../VOICE-CMD-backup'')) =
     Some ''/home/user/Desktop/VOICE-CMD-backup'' \<and>
   insideDirectory ''/home/user/Desktop/VOICE-CMD'' ''/home/user/Desktop/VOICE-CMD-backup'' = False \<and>
   path_resolve ''/srv/app'' [''/home/user/Desktop/VOICE-CMD'', ''../../etc/passwd''] =
     ''/home/user/etc/passwd'' \<and>
   safe (isPathSafe ''/home/user'' ''/srv/app'' (JsString ''../../etc/passwd'')) = False"
proof -
  have h: "list_all cleanSegment [''home'', ''user'']"
    by (simp add: cleanSegment_def)
  have j: "''/'' @ join ''/'' [''home'', ''user''] = ''/home/user''" by simp
  have r: "PROJECT_ROOT ''/home/user'' = ''/home/user/Desktop/VOICE-CMD''" by code_simp
  have q: "path_resolve ''/srv/app'' [''/home/user/Desktop/VOICE-CMD'', ''../../etc/passwd''] =
     ''/home/user/etc/passwd''"
    by code_simp
  have n: "startsWith ''/home/user/etc/passwd'' ''/home/user/Desktop/VOICE-CMD'' = False"
    by simp
  note t = isPathSafe_accepts_sibling_directory
    [OF h, where cwd = "''/srv/app''" and home = "''/home/user''"
       and userPath = "''../../etc/passwd''" and extension = "[]", unfolded j r q n]
  from t have a: "safe (isPathSafe ''/home/user'' ''/srv/app'' (JsString ''../VOICE-CMD-backup'')) = True"
    by blast
  from t have b: "path_resolve ''/srv/app'' [''/home/user/Desktop/VOICE-CMD'', ''../VOICE-CMD-backup''] =
      ''/home/user/Desktop/VOICE-CMD-backup''"
    by simp
  from t have c: "resolvedPath (isPathSafe ''/home/user'' ''/srv/app'' (JsString ''../VOICE-CMD-backup'')) =
     Some ''/home/user/Desktop/VOICE-CMD-backup''"
    unfolding b by blast
  from t have d: "insideDirectory ''/home/user/Desktop/VOICE-CMD'' ''/home/user/Desktop/VOICE-CMD-backup'' = False"
    unfolding b by blast
  from t have e: "safe (isPathSafe ''/home/user'' ''/srv/app'' (JsString ''../../etc/passwd'')) = False"
    by simp
  note t2 = isPathSafe_accepts_sibling_directory
    [OF h, where cwd = "''/srv/app''" and home = "''/home/user''"
       and userPath = "''../VOICE-CMD-backup''" and extension = "''-backup''", unfolded j r b]
  from t2 have f: "startsWith ''/home/user/Desktop/VOICE-CMD-backup'' ''/home/user/Desktop/VOICE-CMD'' \<and>
      safe (isPathSafe ''/home/user'' ''/srv/app'' (JsString ''../VOICE-CMD-backup'')) = True"
    by simp
  from r a c d q e f show ?thesis by blast
qed

end
